theory Spec2Isabelle
  imports Complex_Main "HOL-Library.Log_Nat"
begin

section \<open>WealthFlow: the forecast engine and the heuristic advisor\<close>

text \<open>
  A shallow embedding of \<^verbatim>\<open>lib/forecast.ts\<close> (\<^verbatim>\<open>computeForecast\<close>) and of
  \<^verbatim>\<open>lib/heuristic-advisor.ts\<close> (\<^verbatim>\<open>runHeuristicAdvisor\<close>).

  Numbers. A JavaScript \<^verbatim>\<open>number\<close> is an IEEE 754 double. The model keeps its value
  in \<^typ>\<open>rat\<close> and rounds the exact result of every arithmetic operation of the source
  to the nearest double, ties to even (\<open>fl\<close>, below): \<open>fadd\<close>, \<open>fsub\<close>, \<open>fmul\<close>
  and \<open>fdiv\<close> are the \<^verbatim>\<open>+\<close>, \<^verbatim>\<open>-\<close>, \<^verbatim>\<open>*\<close> and \<^verbatim>\<open>/\<close> of the source.
  Comparisons, \<^verbatim>\<open>Math.min\<close>, \<^verbatim>\<open>Math.max\<close>, the unary minus and \<^verbatim>\<open>Math.round\<close>
  are exact on doubles. A decimal literal is the double nearest to it (\<^verbatim>\<open>0.3\<close> is
  \<open>fl (3/10)\<close>); the integer constants of the source are doubles as they stand. The
  inputs of the engine are doubles; the definitions accept every rational, so a statement
  about all inputs covers them. Outside the model: overflow to \<^verbatim>\<open>Infinity\<close> (beyond
  \<open>2^1024\<close>), \<^verbatim>\<open>NaN\<close>, and the sign of zero.

  \<^verbatim>\<open>Math.pow\<close>. ECMA-262 leaves the result of \<^verbatim>\<open>Math.pow\<close> to the implementation
  (an approximation of the power), so the \<^verbatim>\<open>Math.pow\<close> of the runtime is a parameter
  \<open>pw\<close> of every definition that reaches it; the source only calls it with a natural
  exponent. \<open>powRef\<close>, the double nearest to the exact power, is one such function.
  The loop counter \<^verbatim>\<open>m\<close> is a natural number (as a double it is exact below
  \<open>2^53\<close>).

  Months. Month counters run over \<^typ>\<open>nat\<close>, the month fields of the input
  (\<^verbatim>\<open>months\<close>, \<^verbatim>\<open>startMonth\<close>, \<^verbatim>\<open>endMonth\<close>, \<^verbatim>\<open>targetMonth\<close>, an event's
  \<^verbatim>\<open>month\<close>) over \<^typ>\<open>int\<close>, so that a zero or negative horizon and a negative
  target month are inputs of the model.

  Errors. Reading a property of \<^verbatim>\<open>undefined\<close> (an array read out of range followed by
  a field access) raises a TypeError in the source; the model returns \<open>Inl TypeError\<close>.
\<close>

subsection \<open>Doubles\<close>

text \<open>Rounding to the nearest integer, a tie to the even one.\<close>

definition rne :: "rat \<Rightarrow> int" where
  "rne t = (let f = \<lfloor>t\<rfloor>; r = t - of_int f
            in if r < 1 / 2 then f else if 1 / 2 < r then f + 1
               else if even f then f else f + 1)"

text \<open>The binary exponent of a non-zero rational: \<open>2^(ilog2 x) \<le> \<bar>x\<bar> < 2^(ilog2 x + 1)\<close>.\<close>

definition ilog2 :: "rat \<Rightarrow> int" where
  "ilog2 x = (let (a, b) = quotient_of \<bar>x\<bar>; d = bitlen a - bitlen b
              in if 2 powi d \<le> \<bar>x\<bar> then d else d - 1)"

text \<open>
  The double nearest to \<open>x\<close>: \<open>x\<close> rounded to a multiple of \<open>2^q\<close>, where \<open>q\<close>
  leaves 53 significant bits and is at least \<open>-1074\<close> (the subnormal numbers).
\<close>

definition fl :: "rat \<Rightarrow> rat" where
  "fl x = (if x = 0 then 0
           else (let q = max (ilog2 x - 52) (- 1074)
                 in of_int (rne (x / 2 powi q)) * 2 powi q))"

definition fadd :: "rat \<Rightarrow> rat \<Rightarrow> rat" where
  "fadd x y = fl (x + y)"

definition fsub :: "rat \<Rightarrow> rat \<Rightarrow> rat" where
  "fsub x y = fl (x - y)"

definition fmul :: "rat \<Rightarrow> rat \<Rightarrow> rat" where
  "fmul x y = fl (x * y)"

definition fdiv :: "rat \<Rightarrow> rat \<Rightarrow> rat" where
  "fdiv x y = fl (x / y)"

text \<open>A \<^verbatim>\<open>Math.pow\<close> that returns the double nearest to the exact power.\<close>

definition powRef :: "rat \<Rightarrow> nat \<Rightarrow> rat" where
  "powRef x n = fl (x ^ n)"

subsection \<open>Data model (\<^verbatim>\<open>lib/types.ts\<close>)\<close>

datatype Category = Fixed | Discretionary | Rent

text \<open>
  \<^verbatim>\<open>'min' | 'aggressive' | 'instant'\<close>; \<^verbatim>\<open>'min'\<close> is \<open>Minimum\<close>, since \<open>Min\<close> is
  the minimum of a finite set in HOL.
\<close>

datatype Strategy = Minimum | Aggressive | Instant

datatype GoalType = Savings | NetWorth | Investment

record IncomeInput =
  inc_id :: string
  inc_label :: string
  inc_amount :: rat
  inc_startMonth :: int
  inc_endMonth :: "int option"
  inc_growthRate :: rat

record ExpenseInput =
  exp_id :: string
  exp_label :: string
  exp_amount :: rat
  category :: Category
  exp_startMonth :: int
  exp_endMonth :: "int option"
  exp_growthRate :: rat
  isOneTime :: "bool option"

record DebtInput =
  debt_id :: string
  debt_label :: string
  debt_balance :: rat
  debt_annualRate :: rat
  debt_minPayment :: rat
  debt_strategy :: Strategy

record InvestmentInput =
  inv_id :: string
  inv_label :: string
  currentValue :: rat
  monthlyContribution :: rat
  expectedAnnualReturn :: rat

record OneTimeEvent =
  ev_id :: string
  ev_label :: string
  ev_amount :: rat
  ev_month :: int

record FinancialGoal =
  goal_id :: string
  goal_label :: string
  targetAmount :: rat
  targetMonth :: int
  goal_type :: GoalType

record ScenarioInput =
  scenario_id :: string
  currency :: string
  months :: int
  initialCash :: rat
  incomes :: "IncomeInput list"
  expenses :: "ExpenseInput list"
  debts :: "DebtInput list"
  investments :: "InvestmentInput list"
  inflationRate :: "rat option"
  taxRate :: "rat option"
  oneTimeEvents :: "OneTimeEvent list option"
  goals :: "FinancialGoal list option"

record MonthSnapshot =
  month :: nat
  cash :: rat
  netWorth :: rat
  totalDebt :: rat
  totalInvestments :: rat
  totalIncome :: rat
  totalExpenses :: rat
  totalDebtPayment :: rat
  totalInvestmentContribution :: rat

record GoalProgress =
  goalId :: string
  gp_label :: string
  gp_targetAmount :: rat
  gp_targetMonth :: int
  achievedMonth :: "nat option"
  endValue :: rat
  onTrack :: bool

record Summary =
  endCash :: rat
  endNetWorth :: rat
  minCash :: rat
  minCashMonth :: nat
  negativeCashMonths :: "nat list"
  debtFreeMonth :: "nat option"
  totalInterestPaid :: rat
  endInvestmentValue :: rat
  totalTaxPaid :: rat

record ForecastResult =
  snapshots :: "MonthSnapshot list"
  summary :: Summary
  goalProgress :: "GoalProgress list"

datatype error = TypeError

subsection \<open>The forecast engine (\<^verbatim>\<open>lib/forecast.ts\<close>)\<close>

text \<open>\<^verbatim>\<open>Math.round\<close> rounds to the nearest integer, a tie towards \<open>+\<infinity>\<close>.\<close>

definition Math_round :: "rat \<Rightarrow> int" where
  "Math_round x = \<lfloor>x + 1 / 2\<rfloor>"

text \<open>\<^verbatim>\<open>Math.floor\<close> rounds down to an integer.\<close>

definition Math_floor :: "rat \<Rightarrow> int" where
  "Math_floor x = \<lfloor>x\<rfloor>"

text \<open>\<^verbatim>\<open>const r2 = (n) => Math.round(n * 100) / 100\<close>\<close>

definition r2 :: "rat \<Rightarrow> rat" where
  "r2 n = fdiv (of_int (Math_round (fmul n 100))) 100"

definition monthlyIncome :: "(rat \<Rightarrow> nat \<Rightarrow> rat) \<Rightarrow> IncomeInput \<Rightarrow> nat \<Rightarrow> rat" where
  "monthlyIncome pw income m =
     (if int m < inc_startMonth income then 0
      else if (case inc_endMonth income of None \<Rightarrow> False | Some e \<Rightarrow> int m > e) then 0
      else (let years = nat (Math_floor (fdiv (of_nat m) 12))
            in r2 (fmul (inc_amount income)
                     (pw (fadd 1 (fdiv (inc_growthRate income) 100)) years))))"

definition monthlyExpense :: "(rat \<Rightarrow> nat \<Rightarrow> rat) \<Rightarrow> ExpenseInput \<Rightarrow> nat \<Rightarrow> rat" where
  "monthlyExpense pw expense m =
     (if int m < exp_startMonth expense then 0
      else if (case exp_endMonth expense of None \<Rightarrow> False | Some e \<Rightarrow> int m > e) then 0
      else if isOneTime expense = Some True \<and> int m \<noteq> exp_startMonth expense then 0
      else (let years = nat (Math_floor (fdiv (of_nat m) 12))
            in r2 (fmul (exp_amount expense)
                     (pw (fadd 1 (fdiv (exp_growthRate expense) 100)) years))))"

record DebtState =
  balance :: rat
  annualRate :: rat
  minPayment :: rat
  strategy :: Strategy
  paidOff :: bool

record DebtStep =
  payment :: rat
  interest :: rat
  newBalance :: rat

definition stepDebt :: "DebtState \<Rightarrow> rat \<Rightarrow> DebtStep" where
  "stepDebt state extraCash =
     (if paidOff state \<or> balance state \<le> 0
      then \<lparr>payment = 0, interest = 0, newBalance = 0\<rparr>
      else
        (let monthlyRate = fdiv (fdiv (annualRate state) 100) 12;
             interest' = r2 (fmul (balance state) monthlyRate);
             payment' =
               (if strategy state = Instant then r2 (fadd (balance state) interest')
                else if strategy state = Aggressive
                then r2 (min (fadd (balance state) interest')
                             (fadd (minPayment state) (max 0 (fmul extraCash (fl (3 / 10))))))
                else r2 (min (fadd (balance state) interest') (minPayment state)));
             newBalance' = r2 (max 0 (fsub (fadd (balance state) interest') payment'))
         in \<lparr>payment = payment', interest = interest', newBalance = newBalance'\<rparr>))"

definition stepInvestment :: "rat \<Rightarrow> rat \<Rightarrow> rat \<Rightarrow> rat" where
  "stepInvestment val contribution annualReturn =
     (let monthlyRate = fdiv (fdiv annualReturn 100) 12
      in r2 (fadd (fmul val (fadd 1 monthlyRate)) contribution))"

text \<open>The variables that the month loop of \<^verbatim>\<open>computeForecast\<close> reads and writes.\<close>

record LoopState =
  st_cash :: rat
  st_debtStates :: "DebtState list"
  st_invValues :: "rat list"
  st_snapshots :: "MonthSnapshot list"
  st_totalInterestPaid :: rat
  st_totalTaxPaid :: rat
  st_negativeCashMonths :: "nat list"
  st_debtFreeMonth :: "nat option"
  st_minCash :: rat
  st_minCashMonth :: nat
  st_goalAchievedMonth :: "nat option list"

text \<open>The destructuring defaults \<^verbatim>\<open>inflationRate = 0, taxRate = 0, oneTimeEvents = [], goals = []\<close>.\<close>

definition inflationRateOf :: "ScenarioInput \<Rightarrow> rat" where
  "inflationRateOf sc = (case inflationRate sc of None \<Rightarrow> 0 | Some x \<Rightarrow> x)"

definition taxRateOf :: "ScenarioInput \<Rightarrow> rat" where
  "taxRateOf sc = (case taxRate sc of None \<Rightarrow> 0 | Some x \<Rightarrow> x)"

definition oneTimeEventsOf :: "ScenarioInput \<Rightarrow> OneTimeEvent list" where
  "oneTimeEventsOf sc = (case oneTimeEvents sc of None \<Rightarrow> [] | Some es \<Rightarrow> es)"

definition goalsOf :: "ScenarioInput \<Rightarrow> FinancialGoal list" where
  "goalsOf sc = (case goals sc of None \<Rightarrow> [] | Some gs \<Rightarrow> gs)"

definition initState :: "ScenarioInput \<Rightarrow> LoopState" where
  "initState sc =
     \<lparr>st_cash = initialCash sc,
      st_debtStates =
        map (\<lambda>d. \<lparr>balance = debt_balance d, annualRate = debt_annualRate d,
                  minPayment = debt_minPayment d, strategy = debt_strategy d,
                  paidOff = False\<rparr>) (debts sc),
      st_invValues = map currentValue (investments sc),
      st_snapshots = [],
      st_totalInterestPaid = 0,
      st_totalTaxPaid = 0,
      st_negativeCashMonths = [],
      st_debtFreeMonth = None,
      st_minCash = initialCash sc,
      st_minCashMonth = 0,
      st_goalAchievedMonth = map (\<lambda>g. None) (goalsOf sc)\<rparr>"

text \<open>Income, tax, expenses and one-time events of month \<open>m\<close>: they read the scenario only.\<close>

definition grossIncome :: "(rat \<Rightarrow> nat \<Rightarrow> rat) \<Rightarrow> ScenarioInput \<Rightarrow> nat \<Rightarrow> rat" where
  "grossIncome pw sc m = r2 (foldl (\<lambda>s inc. fadd s (monthlyIncome pw inc m)) 0 (incomes sc))"

definition taxThisMonth :: "(rat \<Rightarrow> nat \<Rightarrow> rat) \<Rightarrow> ScenarioInput \<Rightarrow> nat \<Rightarrow> rat" where
  "taxThisMonth pw sc m = r2 (fmul (grossIncome pw sc m) (fdiv (taxRateOf sc) 100))"

definition netIncome :: "(rat \<Rightarrow> nat \<Rightarrow> rat) \<Rightarrow> ScenarioInput \<Rightarrow> nat \<Rightarrow> rat" where
  "netIncome pw sc m = r2 (fsub (grossIncome pw sc m) (taxThisMonth pw sc m))"

definition monthlyInflation :: "ScenarioInput \<Rightarrow> rat" where
  "monthlyInflation sc = fdiv (fdiv (inflationRateOf sc) 100) 12"

definition inflationMultiplier :: "(rat \<Rightarrow> nat \<Rightarrow> rat) \<Rightarrow> ScenarioInput \<Rightarrow> nat \<Rightarrow> rat" where
  "inflationMultiplier pw sc m = pw (fadd 1 (monthlyInflation sc)) m"

definition expensesTotal :: "(rat \<Rightarrow> nat \<Rightarrow> rat) \<Rightarrow> ScenarioInput \<Rightarrow> nat \<Rightarrow> rat" where
  "expensesTotal pw sc m =
     r2 (foldl (\<lambda>s ex. fadd s (fmul (monthlyExpense pw ex m) (inflationMultiplier pw sc m))) 0
           (expenses sc))"

definition oneTimeNet :: "ScenarioInput \<Rightarrow> nat \<Rightarrow> rat" where
  "oneTimeNet sc m =
     r2 (foldl (\<lambda>s ev. fadd s (ev_amount ev)) 0
           (filter (\<lambda>ev. ev_month ev = int m) (oneTimeEventsOf sc)))"

definition preDebtCash :: "(rat \<Rightarrow> nat \<Rightarrow> rat) \<Rightarrow> ScenarioInput \<Rightarrow> nat \<Rightarrow> rat \<Rightarrow> rat" where
  "preDebtCash pw sc m c =
     r2 (fadd (fsub (fadd c (netIncome pw sc m)) (expensesTotal pw sc m)) (oneTimeNet sc m))"

text \<open>
  The debt loop \<^verbatim>\<open>for (di = 0; di < debtStates.length; di++)\<close>: every debt is stepped
  with the same \<open>extraCash\<close>; the running totals are rounded after each debt.
\<close>

fun debtLoop :: "rat \<Rightarrow> DebtState list \<Rightarrow> rat \<Rightarrow> rat \<Rightarrow> DebtState list \<times> rat \<times> rat" where
  "debtLoop extraCash [] totalPayment totalInterestThisMonth =
     ([], totalPayment, totalInterestThisMonth)"
| "debtLoop extraCash (d # ds) totalPayment totalInterestThisMonth =
     (let step = stepDebt d extraCash;
          d' = d\<lparr>balance := newBalance step,
                 paidOff := (if newBalance step \<le> 0 then True else paidOff d)\<rparr>;
          (ds', tp, ti) = debtLoop extraCash ds (r2 (fadd totalPayment (payment step)))
                            (r2 (fadd totalInterestThisMonth (interest step)))
      in (d' # ds', tp, ti))"

text \<open>
  The investment loop \<^verbatim>\<open>for (ii = 0; ii < invValues.length; ii++)\<close>. \<^verbatim>\<open>invValues\<close>
  is built from \<^verbatim>\<open>investments\<close> and keeps its length, so \<^verbatim>\<open>investments[ii]\<close> is
  always in range; the model walks both lists together.
\<close>

fun invLoop :: "InvestmentInput list \<Rightarrow> rat list \<Rightarrow> rat \<Rightarrow> rat list \<times> rat" where
  "invLoop (i # is) (v # vs) totalContrib =
     (let contrib = monthlyContribution i;
          v' = stepInvestment v contrib (expectedAnnualReturn i);
          (vs', tc) = invLoop is vs (r2 (fadd totalContrib contrib))
      in (v' # vs', tc))"
| "invLoop _ _ totalContrib = ([], totalContrib)"

text \<open>\<^verbatim>\<open>goals.forEach\<close>: an achieved goal keeps its month, an open one is tested.\<close>

definition goalStep :: "nat \<Rightarrow> rat \<Rightarrow> rat \<Rightarrow> rat \<Rightarrow> FinancialGoal \<Rightarrow> nat option \<Rightarrow> nat option" where
  "goalStep m c nw totalInv goal achieved =
     (if achieved \<noteq> None then achieved
      else (let actual = (if goal_type goal = Savings then c
                          else if goal_type goal = NetWorth then nw
                          else totalInv)
            in if actual \<ge> targetAmount goal then Some m else None))"

text \<open>The body of \<^verbatim>\<open>for (let m = 0; m < months; m++)\<close>.\<close>

definition monthStep ::
  "(rat \<Rightarrow> nat \<Rightarrow> rat) \<Rightarrow> ScenarioInput \<Rightarrow> nat \<Rightarrow> LoopState \<Rightarrow> LoopState" where
  "monthStep pw sc m st =
     (let totalTaxPaid' = r2 (fadd (st_totalTaxPaid st) (taxThisMonth pw sc m));
          pdc = preDebtCash pw sc m (st_cash st);
          extraCash = max 0 pdc;
          (debtStates', totalDebtPayment', totalInterestThisMonth) =
             debtLoop extraCash (st_debtStates st) 0 0;
          totalInterestPaid' = r2 (fadd (st_totalInterestPaid st) totalInterestThisMonth);
          (invValues', totalContrib) = invLoop (investments sc) (st_invValues st) 0;
          cash' = r2 (fsub (fsub pdc totalDebtPayment') totalContrib);
          lower = (cash' < st_minCash st);
          totalDebt' = r2 (foldl (\<lambda>s d. fadd s (balance d)) 0 debtStates');
          totalInv = r2 (foldl (\<lambda>s v. fadd s v) 0 invValues');
          netWorth' = r2 (fsub (fadd cash' totalInv) totalDebt')
      in \<lparr>st_cash = cash',
          st_debtStates = debtStates',
          st_invValues = invValues',
          st_snapshots = st_snapshots st @
            [\<lparr>month = m, cash = cash', netWorth = netWorth', totalDebt = totalDebt',
              totalInvestments = totalInv, totalIncome = netIncome pw sc m,
              totalExpenses = expensesTotal pw sc m, totalDebtPayment = totalDebtPayment',
              totalInvestmentContribution = totalContrib\<rparr>],
          st_totalInterestPaid = totalInterestPaid',
          st_totalTaxPaid = totalTaxPaid',
          st_negativeCashMonths =
            (if cash' < 0 then st_negativeCashMonths st @ [m] else st_negativeCashMonths st),
          st_debtFreeMonth =
            (if st_debtFreeMonth st = None \<and> totalDebt' = 0 \<and> length (debts sc) > 0
             then Some m else st_debtFreeMonth st),
          st_minCash = (if lower then cash' else st_minCash st),
          st_minCashMonth = (if lower then m else st_minCashMonth st),
          st_goalAchievedMonth =
            map (\<lambda>(goal, a). goalStep m cash' netWorth' totalInv goal a)
                (zip (goalsOf sc) (st_goalAchievedMonth st))\<rparr>)"

function forecastLoop ::
  "(rat \<Rightarrow> nat \<Rightarrow> rat) \<Rightarrow> ScenarioInput \<Rightarrow> nat \<Rightarrow> LoopState \<Rightarrow> LoopState" where
  "forecastLoop pw sc m st =
     (if int m < months sc then forecastLoop pw sc (Suc m) (monthStep pw sc m st) else st)"
  by pat_completeness auto
termination
  by (relation "measure (\<lambda>(pw, sc, m, st). nat (months sc) - m)") auto

text \<open>
  \<^verbatim>\<open>snapshots[Math.min(goal.targetMonth, snapshots.length - 1)]\<close> followed by a field
  read: an index below zero (always so for an empty \<^verbatim>\<open>snapshots\<close>) reads
  \<^verbatim>\<open>undefined\<close>, and the field read raises.
\<close>

definition goalProgressOf ::
  "MonthSnapshot list \<Rightarrow> FinancialGoal \<Rightarrow> nat option \<Rightarrow> error + GoalProgress" where
  "goalProgressOf snaps goal achieved =
     (let i = min (targetMonth goal) (int (length snaps) - 1)
      in if i < 0 then Inl TypeError
         else
           (let snapshotAtTarget = snaps ! nat i;
                v = (if goal_type goal = Savings then cash snapshotAtTarget
                     else if goal_type goal = NetWorth then netWorth snapshotAtTarget
                     else totalInvestments snapshotAtTarget)
            in Inr \<lparr>goalId = goal_id goal, gp_label = goal_label goal,
                     gp_targetAmount = targetAmount goal, gp_targetMonth = targetMonth goal,
                     achievedMonth = achieved, endValue = v,
                     onTrack = (case achieved of None \<Rightarrow> False
                                | Some a \<Rightarrow> int a \<le> targetMonth goal)\<rparr>))"

text \<open>\<^verbatim>\<open>goals.map(...)\<close>, stopping at the first goal whose callback raises.\<close>

fun goalProgressAll ::
  "MonthSnapshot list \<Rightarrow> FinancialGoal list \<Rightarrow> nat option list \<Rightarrow> error + GoalProgress list" where
  "goalProgressAll snaps (g # gs) (a # as) =
     (case goalProgressOf snaps g a of
        Inl e \<Rightarrow> Inl e
      | Inr p \<Rightarrow> (case goalProgressAll snaps gs as of
                   Inl e \<Rightarrow> Inl e
                 | Inr ps \<Rightarrow> Inr (p # ps)))"
| "goalProgressAll snaps _ _ = Inr []"

text \<open>
  \<^verbatim>\<open>const last = snapshots[snapshots.length - 1]\<close> is \<^verbatim>\<open>undefined\<close> for an empty
  \<^verbatim>\<open>snapshots\<close>; the \<^verbatim>\<open>return\<close> then raises on \<^verbatim>\<open>last.cash\<close>.
\<close>

definition computeForecast ::
  "(rat \<Rightarrow> nat \<Rightarrow> rat) \<Rightarrow> ScenarioInput \<Rightarrow> error + ForecastResult" where
  "computeForecast pw sc =
     (let st = forecastLoop pw sc 0 (initState sc);
          snaps = st_snapshots st
      in case goalProgressAll snaps (goalsOf sc) (st_goalAchievedMonth st) of
           Inl e \<Rightarrow> Inl e
         | Inr gp \<Rightarrow>
             if snaps = [] then Inl TypeError
             else
               (let lst = snaps ! (length snaps - 1)
                in Inr \<lparr>snapshots = snaps,
                         summary =
                           \<lparr>endCash = cash lst,
                            endNetWorth = netWorth lst,
                            minCash = st_minCash st,
                            minCashMonth = st_minCashMonth st,
                            negativeCashMonths = st_negativeCashMonths st,
                            debtFreeMonth = st_debtFreeMonth st,
                            totalInterestPaid = st_totalInterestPaid st,
                            endInvestmentValue = totalInvestments lst,
                            totalTaxPaid = st_totalTaxPaid st\<rparr>,
                         goalProgress = gp\<rparr>))"

subsection \<open>The advisor response (\<^verbatim>\<open>lib/advisor-schema.ts\<close>)\<close>

datatype Confidence = Low | Med | High

datatype AlertType = AT_cash | AT_debt | AT_rent | AT_fx | AT_portfolio

record Insight =
  title :: string
  why :: string
  impact_aed :: rat
  confidence :: Confidence

record Alert =
  alert_type :: AlertType
  message :: string
  monthIndex :: int

record ExpenseAdjustment =
  expenseId :: string
  delta :: rat

record InvestmentAdjustment =
  accountId :: string
  monthlyContributionDelta :: rat
  expectedReturnDelta :: rat

text \<open>
  Of the optional fields of \<^verbatim>\<open>ActionChangesSchema\<close> the heuristic advisor sets
  \<^verbatim>\<open>debtStrategy\<close>, \<^verbatim>\<open>expenseAdjustments\<close> and \<^verbatim>\<open>investmentAdjustments\<close>;
  \<^verbatim>\<open>incomeAdjustments\<close> and \<^verbatim>\<open>fxOverride\<close> are never written and are left out.
\<close>

record ActionChanges =
  debtStrategy :: "Strategy option"
  expenseAdjustments :: "ExpenseAdjustment list option"
  investmentAdjustments :: "InvestmentAdjustment list option"

record ExpectedOutcome =
  netWorthDelta :: rat
  minCashDelta :: rat

record AdvisorAction =
  action_id :: string
  action_label :: string
  changes :: ActionChanges
  expectedOutcome :: ExpectedOutcome

record AdvisorResponse =
  insights :: "Insight list"
  alerts :: "Alert list"
  actions :: "AdvisorAction list"

subsection \<open>The heuristic advisor (\<^verbatim>\<open>lib/heuristic-advisor.ts\<close>)\<close>

text \<open>
  The texts are template literals over numbers. How the runtime prints a number
  (\<^verbatim>\<open>Number.prototype.toLocaleString\<close>, which depends on the locale, and the plain
  conversion of a template literal) is a parameter of the model.
\<close>

record Printing =
  toLocaleString :: "rat \<Rightarrow> string"
  toStr :: "rat \<Rightarrow> string"

definition negativeCashAlert ::
  "Printing \<Rightarrow> string \<Rightarrow> MonthSnapshot list \<Rightarrow> nat \<Rightarrow> error + Alert" where
  "negativeCashAlert P cur snaps m =
     (if m < length snaps
      then Inr \<lparr>alert_type = AT_cash,
                 message = ''Cash goes negative ('' @ cur @ '' ''
                   @ toLocaleString P (r2 (cash (snaps ! m))) @ '') in month ''
                   @ toStr P (of_nat m + 1) @ ''.'',
                 monthIndex = int m\<rparr>
      else Inl TypeError)"

text \<open>\<^verbatim>\<open>for (const m of summary.negativeCashMonths.slice(0, 5))\<close>, on the sliced list.\<close>

fun negativeCashAlerts ::
  "Printing \<Rightarrow> string \<Rightarrow> MonthSnapshot list \<Rightarrow> nat list \<Rightarrow> error + Alert list" where
  "negativeCashAlerts P cur snaps [] = Inr []"
| "negativeCashAlerts P cur snaps (m # ms) =
     (case negativeCashAlert P cur snaps m of
        Inl e \<Rightarrow> Inl e
      | Inr a \<Rightarrow> (case negativeCashAlerts P cur snaps ms of
                   Inl e \<Rightarrow> Inl e
                 | Inr as \<Rightarrow> Inr (a # as)))"

text \<open>
  \<^verbatim>\<open>for (let i = 1; i < snapshots.length; i++)\<close> with its \<^verbatim>\<open>break\<close>: the list
  argument starts at \<^verbatim>\<open>snapshots[i - 1]\<close>.
\<close>

fun spikeAlert :: "Printing \<Rightarrow> string \<Rightarrow> nat \<Rightarrow> MonthSnapshot list \<Rightarrow> Alert list" where
  "spikeAlert P cur i (a # b # rest) =
     (let prev = totalExpenses a; curr = totalExpenses b
      in if prev > 0 \<and> fdiv (fsub curr prev) prev > fl (2 / 10)
         then [\<lparr>alert_type = AT_rent,
                 message = ''Expense spike of '' @ toLocaleString P (r2 (fsub curr prev))
                   @ '' '' @ cur @ '' in month '' @ toStr P (of_nat i + 1) @ ''.'',
                 monthIndex = int i\<rparr>]
         else spikeAlert P cur (Suc i) (b # rest))"
| "spikeAlert P cur i _ = []"

definition monthlyExpensesAvg :: "MonthSnapshot list \<Rightarrow> rat" where
  "monthlyExpensesAvg snaps =
     (if length snaps > 0
      then r2 (fdiv (foldl (\<lambda>s sn. fadd s (totalExpenses sn)) 0 (take 3 snaps))
                    (of_nat (min 3 (length snaps))))
      else 0)"

definition totalInterestEstimate :: "ScenarioInput \<Rightarrow> rat" where
  "totalInterestEstimate sc =
     r2 (foldl (\<lambda>s d. fadd s (fmul (debt_balance d) (fdiv (debt_annualRate d) 100))) 0
           (debts sc))"

definition advisorAlerts ::
  "Printing \<Rightarrow> ScenarioInput \<Rightarrow> ForecastResult \<Rightarrow> rat \<Rightarrow> error + Alert list" where
  "advisorAlerts P sc fc emergencyFundMonths =
     (let snaps = snapshots fc; sm = summary fc; cur = currency sc;
          emergencyTarget = r2 (fmul (monthlyExpensesAvg snaps) emergencyFundMonths)
      in case negativeCashAlerts P cur snaps (take 5 (negativeCashMonths sm)) of
           Inl e \<Rightarrow> Inl e
         | Inr cashAlerts \<Rightarrow>
             Inr (cashAlerts
                  @ spikeAlert P cur 1 snaps
                  @ (if totalInterestEstimate sc > 0
                     then [\<lparr>alert_type = AT_debt,
                             message = ''Estimated annual interest drag: '' @ cur @ '' ''
                               @ toLocaleString P (totalInterestEstimate sc)
                               @ ''. Consider accelerating repayment.'',
                             monthIndex = 0\<rparr>]
                     else [])
                  @ (if endCash sm < emergencyTarget
                     then [\<lparr>alert_type = AT_cash,
                             message = ''Emergency buffer below target (''
                               @ toStr P emergencyFundMonths @ [CHR 0xC3, CHR 0x97]
                               @ '' expenses = '' @ cur @ '' ''
                               @ toLocaleString P emergencyTarget
                               @ ''). Current end cash: '' @ cur @ '' ''
                               @ toLocaleString P (endCash sm) @ ''.'',
                             monthIndex = int (length snaps) - 1\<rparr>]
                     else [])))"

text \<open>The insights before \<^verbatim>\<open>if (insights.length < 3)\<close>.\<close>

definition insightsBeforeFiller ::
  "Printing \<Rightarrow> ScenarioInput \<Rightarrow> ForecastResult \<Rightarrow> Insight list" where
  "insightsBeforeFiller P sc fc =
     (let sm = summary fc; cur = currency sc
      in [\<lparr>title = ''Projected net worth'',
            why = ''Based on current income, expenses, debt repayment, and investment growth over ''
              @ toStr P (of_int (months sc)) @ '' months.'',
            impact_aed = endNetWorth sm,
            confidence = High\<rparr>]
         @ (case debtFreeMonth sm of
              None \<Rightarrow> []
            | Some dfm \<Rightarrow>
                [\<lparr>title = ''Debt-free in month '' @ toStr P (of_nat dfm + 1),
                  why = ''At current repayment pace all debts clear by month ''
                    @ toStr P (of_nat dfm + 1) @ '', saving ~'' @ cur @ '' ''
                    @ toLocaleString P (totalInterestEstimate sc) @ '' in future interest.'',
                  impact_aed = totalInterestEstimate sc,
                  confidence = Med\<rparr>])
         @ (if length (negativeCashMonths sm) > 0
            then [\<lparr>title = toStr P (of_nat (length (negativeCashMonths sm)))
                      @ '' months of negative cash'',
                    why = ''Expenses + debt payments exceed income in these months. Consider reducing discretionary spending or delaying large payments.'',
                    impact_aed = r2 (minCash sm),
                    confidence = High\<rparr>]
            else [])
         @ (if length (investments sc) > 0
            then (let totalContrib =
                        r2 (foldl (\<lambda>s i. fadd s (monthlyContribution i)) 0 (investments sc))
                  in [\<lparr>title = ''Investment contributions active'',
                        why = ''Monthly contributions of '' @ cur @ '' ''
                          @ toLocaleString P totalContrib
                          @ '' compound over time. Projected end value: '' @ cur @ '' ''
                          @ toLocaleString P (endInvestmentValue sm) @ ''.'',
                        impact_aed = endInvestmentValue sm,
                        confidence = Med\<rparr>])
            else []))"

definition fillerInsight :: "ForecastResult \<Rightarrow> Insight" where
  "fillerInsight fc =
     \<lparr>title = ''Cash flow appears stable'',
      why = ''No critical cash shortfalls detected over the forecast horizon.'',
      impact_aed = minCash (summary fc),
      confidence = Med\<rparr>"

definition advisorInsights ::
  "Printing \<Rightarrow> ScenarioInput \<Rightarrow> ForecastResult \<Rightarrow> Insight list" where
  "advisorInsights P sc fc =
     (let ins = insightsBeforeFiller P sc fc
      in if length ins < 3 then ins @ [fillerInsight fc] else ins)"

text \<open>
  The actions. \<^verbatim>\<open>scenario.debts[0].minPayment\<close> raises on an empty \<^verbatim>\<open>debts\<close>;
  \<^verbatim>\<open>scenario.investments[0]\<close> is read under \<^verbatim>\<open>investments.length > 0\<close>.
\<close>

definition advisorActions :: "ScenarioInput \<Rightarrow> ForecastResult \<Rightarrow> error + AdvisorAction list" where
  "advisorActions sc fc =
     (let sm = summary fc;
          totalDebt' = r2 (foldl (\<lambda>s d. fadd s (debt_balance d)) 0 (debts sc));
          discretionary = filter (\<lambda>e. category e = Discretionary) (expenses sc);
          reduceAction =
            (if length discretionary > 0 \<and> length (negativeCashMonths sm) > 0
             then (let totalDisc = r2 (foldl (\<lambda>s e. fadd s (exp_amount e)) 0 discretionary);
                       cut = r2 (fmul totalDisc (fl (15 / 100)))
                   in [\<lparr>action_id = ''reduce-discretionary'',
                         action_label = ''Reduce discretionary spending 15%'',
                         changes =
                           \<lparr>debtStrategy = None,
                            expenseAdjustments =
                              Some (map (\<lambda>e. \<lparr>expenseId = exp_id e,
                                                delta =
                                                  r2 (fmul (- exp_amount e) (fl (15 / 100)))\<rparr>)
                                        discretionary),
                            investmentAdjustments = None\<rparr>,
                         expectedOutcome =
                           \<lparr>netWorthDelta = r2 (fmul cut (of_int (months sc))),
                            minCashDelta = r2 cut\<rparr>\<rparr>])
             else []);
          boostAction =
            (case investments sc of
               [] \<Rightarrow> []
             | firstInv # _ \<Rightarrow>
                 [\<lparr>action_id = ''boost-investments'',
                   action_label = ''Increase investment contribution by 10%'',
                   changes =
                     \<lparr>debtStrategy = None,
                      expenseAdjustments = None,
                      investmentAdjustments =
                        Some [\<lparr>accountId = inv_id firstInv,
                                monthlyContributionDelta =
                                  r2 (fmul (monthlyContribution firstInv) (fl (1 / 10))),
                                expectedReturnDelta = 0\<rparr>]\<rparr>,
                   expectedOutcome =
                     \<lparr>netWorthDelta =
                        r2 (fmul (fmul (fmul (monthlyContribution firstInv) (fl (1 / 10)))
                                       (of_int (months sc)))
                                 (fl (13 / 10))),
                      minCashDelta =
                        r2 (fmul (- monthlyContribution firstInv) (fl (1 / 10)))\<rparr>\<rparr>])
      in if totalDebt' > 0 \<and> list_ex (\<lambda>d. debt_strategy d \<noteq> Aggressive) (debts sc)
         then (case debts sc of
                 [] \<Rightarrow> Inl TypeError
               | d0 # _ \<Rightarrow>
                   Inr ([\<lparr>action_id = ''aggressive-debt'',
                          action_label = ''Accelerate debt repayment'',
                          changes = \<lparr>debtStrategy = Some Aggressive,
                                     expenseAdjustments = None,
                                     investmentAdjustments = None\<rparr>,
                          expectedOutcome =
                            \<lparr>netWorthDelta = r2 (fmul (totalInterestEstimate sc) (fl (4 / 10))),
                             minCashDelta =
                               r2 (fmul (- debt_minPayment d0) (fl (3 / 10)))\<rparr>\<rparr>]
                        @ reduceAction @ boostAction))
         else Inr (reduceAction @ boostAction))"

text \<open>\<^verbatim>\<open>return { insights: insights.slice(0, 6), alerts, actions }\<close>\<close>

definition runHeuristicAdvisor ::
  "Printing \<Rightarrow> ScenarioInput \<Rightarrow> ForecastResult \<Rightarrow> rat \<Rightarrow> error + AdvisorResponse" where
  "runHeuristicAdvisor P sc fc emergencyFundMonths =
     (case advisorAlerts P sc fc emergencyFundMonths of
        Inl e \<Rightarrow> Inl e
      | Inr al \<Rightarrow>
          (case advisorActions sc fc of
             Inl e \<Rightarrow> Inl e
           | Inr ac \<Rightarrow>
               Inr \<lparr>insights = take 6 (advisorInsights P sc fc), alerts = al, actions = ac\<rparr>))"

subsection \<open>Definitions used to state the properties\<close>

text \<open>The loop variables after \<open>n\<close> runs of the loop body, from the initial ones.\<close>

primrec stateAfter :: "(rat \<Rightarrow> nat \<Rightarrow> rat) \<Rightarrow> ScenarioInput \<Rightarrow> nat \<Rightarrow> LoopState" where
  "stateAfter pw sc 0 = initState sc"
| "stateAfter pw sc (Suc n) = monthStep pw sc n (stateAfter pw sc n)"

text \<open>
  A whole number of cents as the engine holds it: \<open>cents n\<close> is the double nearest to
  \<open>n / 100\<close>, which is what \<^verbatim>\<open>Math.round(v) / 100\<close> returns for \<^verbatim>\<open>Math.round(v)\<close>
  \<open>= n\<close> and what a literal with two decimals denotes.
\<close>

definition cents :: "int \<Rightarrow> rat" where
  "cents n = fdiv (of_int n) 100"


text \<open>\<open>x\<close> is within \<open>k\<close> units of \<open>2^-19\<close> of \<open>v\<close>.\<close>

definition near :: "nat \<Rightarrow> rat \<Rightarrow> rat \<Rightarrow> bool" where
  "near k x v \<longleftrightarrow> \<bar>x - v\<bar> \<le> of_nat k / 2 ^ 19"

text \<open>The scenario \<^verbatim>\<open>BASE\<close> of \<^verbatim>\<open>tests/forecast.test.ts\<close>.\<close>

definition baseScenario :: ScenarioInput where
  "baseScenario =
     \<lparr>scenario_id = ''fc-1'', currency = ''AED'', months = 60, initialCash = 100000,
      incomes = [\<lparr>inc_id = ''i1'', inc_label = ''Salary'', inc_amount = 20000,
                  inc_startMonth = 0, inc_endMonth = None, inc_growthRate = 0\<rparr>],
      expenses = [\<lparr>exp_id = ''e1'', exp_label = ''Living'', exp_amount = 10000,
                   category = Fixed, exp_startMonth = 0, exp_endMonth = None,
                   exp_growthRate = 0, isOneTime = None\<rparr>],
      debts = [], investments = [],
      inflationRate = None, taxRate = None, oneTimeEvents = None, goals = None\<rparr>"

text \<open>\<^verbatim>\<open>BASE\<close> with a horizon of zero months.\<close>

definition zeroHorizonScenario :: ScenarioInput where
  "zeroHorizonScenario = baseScenario\<lparr>months := 0\<rparr>"






text \<open>
  An item is active in month \<open>m\<close> from its \<^verbatim>\<open>startMonth\<close> to its \<^verbatim>\<open>endMonth\<close>
  (inclusive, if it has one); a one-time expense only in its \<^verbatim>\<open>startMonth\<close>.
\<close>

definition incomeActive :: "IncomeInput \<Rightarrow> nat \<Rightarrow> bool" where
  "incomeActive i m \<longleftrightarrow>
     inc_startMonth i \<le> int m \<and> (case inc_endMonth i of None \<Rightarrow> True | Some e \<Rightarrow> int m \<le> e)"

definition expenseActive :: "ExpenseInput \<Rightarrow> nat \<Rightarrow> bool" where
  "expenseActive ex m \<longleftrightarrow>
     exp_startMonth ex \<le> int m
     \<and> (case exp_endMonth ex of None \<Rightarrow> True | Some e \<Rightarrow> int m \<le> e)
     \<and> (if isOneTime ex = Some True then int m = exp_startMonth ex else True)"

text \<open>
  The amount of an item compounded yearly, \<open>amount \<times> (1 + growthRate/100)^floor(m/12)\<close>,
  rounded to two decimals; the contribution of an income item and of an expense item to
  their month's totals, the latter multiplied by the monthly-compounded inflation
  multiplier \<open>(1 + inflationRate/100/12)^m\<close>. Every operation is the one on doubles,
  the powers are those of \<^verbatim>\<open>Math.pow\<close>, and \<open>floor(m/12)\<close> is \<open>m div 12\<close>.
\<close>

definition yearlyAmount :: "(rat \<Rightarrow> nat \<Rightarrow> rat) \<Rightarrow> rat \<Rightarrow> rat \<Rightarrow> nat \<Rightarrow> rat" where
  "yearlyAmount pw amount growthRate m =
     r2 (fmul amount (pw (fadd 1 (fdiv growthRate 100)) (m div 12)))"

definition incomeContribution :: "(rat \<Rightarrow> nat \<Rightarrow> rat) \<Rightarrow> IncomeInput \<Rightarrow> nat \<Rightarrow> rat" where
  "incomeContribution pw i m =
     (if incomeActive i m then yearlyAmount pw (inc_amount i) (inc_growthRate i) m else 0)"

definition expenseContribution ::
  "(rat \<Rightarrow> nat \<Rightarrow> rat) \<Rightarrow> ScenarioInput \<Rightarrow> ExpenseInput \<Rightarrow> nat \<Rightarrow> rat" where
  "expenseContribution pw sc ex m =
     (if expenseActive ex m
      then fmul (yearlyAmount pw (exp_amount ex) (exp_growthRate ex) m)
                (pw (fadd 1 (fdiv (fdiv (inflationRateOf sc) 100) 12)) m)
      else 0)"

text \<open>
  A scenario with no debts, no investments, no tax, no inflation, no one-time events and
  no goals, and exactly one income and one expense, both with zero growth and active in
  every month of the horizon.
\<close>

definition flatScenario :: "ScenarioInput \<Rightarrow> IncomeInput \<Rightarrow> ExpenseInput \<Rightarrow> bool" where
  "flatScenario sc inc ex \<longleftrightarrow>
     incomes sc = [inc] \<and> expenses sc = [ex] \<and> debts sc = [] \<and> investments sc = []
     \<and> taxRateOf sc = 0 \<and> inflationRateOf sc = 0 \<and> oneTimeEventsOf sc = []
     \<and> goalsOf sc = []
     \<and> inc_growthRate inc = 0 \<and> inc_startMonth inc \<le> 0
     \<and> (case inc_endMonth inc of None \<Rightarrow> True | Some e \<Rightarrow> months sc - 1 \<le> e)
     \<and> exp_growthRate ex = 0 \<and> exp_startMonth ex \<le> 0
     \<and> (case exp_endMonth ex of None \<Rightarrow> True | Some e \<Rightarrow> months sc - 1 \<le> e)
     \<and> isOneTime ex \<noteq> Some True"



text \<open>
  Two years of an income of 1 a month that grows by 0.5% a year and of an expense of 4.3
  a month that grows by 5% a year, under 75% annual inflation (so that the monthly factor
  is \<open>1.0625\<close>, whose powers up to the 12th are doubles).
\<close>

definition growthScenario :: ScenarioInput where
  "growthScenario =
     \<lparr>scenario_id = ''growth'', currency = ''USD'', months = 24, initialCash = 0,
      incomes = [\<lparr>inc_id = ''i1'', inc_label = ''Salary'', inc_amount = 1,
                  inc_startMonth = 0, inc_endMonth = None, inc_growthRate = fl (5 / 10)\<rparr>],
      expenses = [\<lparr>exp_id = ''e1'', exp_label = ''Living'', exp_amount = fl (43 / 10),
                   category = Fixed, exp_startMonth = 0, exp_endMonth = None,
                   exp_growthRate = 5, isOneTime = None\<rparr>],
      debts = [], investments = [],
      inflationRate = Some 75, taxRate = None, oneTimeEvents = None, goals = None\<rparr>"




text \<open>
  The payment of an aggressive debt as the specification writes it:
  \<open>min(balance + interest, minPayment + max(0, extraCash \<times> 0.3))\<close>, rounded to two
  decimals, with the month's interest \<open>r2 (balance \<times> annualRate/100/12)\<close>.
\<close>

definition aggressivePayment :: "DebtState \<Rightarrow> rat \<Rightarrow> rat" where
  "aggressivePayment d extraCash =
     r2 (min (fadd (balance d) (r2 (fmul (balance d) (fdiv (fdiv (annualRate d) 100) 12))))
             (fadd (minPayment d) (max 0 (fmul extraCash (fl (3 / 10))))))"

text \<open>The \<^verbatim>\<open>extraCash\<close> of month \<open>m\<close>: \<^verbatim>\<open>Math.max(0, preDebtCash)\<close>.\<close>

definition extraCashAt :: "(rat \<Rightarrow> nat \<Rightarrow> rat) \<Rightarrow> ScenarioInput \<Rightarrow> nat \<Rightarrow> rat" where
  "extraCashAt pw sc m = max 0 (preDebtCash pw sc m (st_cash (stateAfter pw sc m)))"


text \<open>
  What one pass of the debt loop does to a debt: \<^verbatim>\<open>debtStates[di].balance = newBalance;
  if (newBalance <= 0) debtStates[di].paidOff = true\<close>.
\<close>

definition applyDebtStep :: "rat \<Rightarrow> DebtState \<Rightarrow> DebtState" where
  "applyDebtStep extraCash d =
     d\<lparr>balance := newBalance (stepDebt d extraCash),
       paidOff := (if newBalance (stepDebt d extraCash) \<le> 0 then True else paidOff d)\<rparr>"

text \<open>
  A debt state as it arises from inputs with non-negative balances and minimum payments.
\<close>

definition debtSound :: "DebtState \<Rightarrow> bool" where
  "debtSound d \<longleftrightarrow> 0 \<le> balance d \<and> 0 \<le> minPayment d \<and> (if paidOff d then balance d = 0 else True)"

text \<open>A one-month scenario whose only debt, an aggressive one, is 100 in credit.\<close>

definition creditBalanceDebt :: DebtState where
  "creditBalanceDebt =
     \<lparr>balance = - 100, annualRate = 0, minPayment = 0, strategy = Aggressive, paidOff = False\<rparr>"

definition creditBalanceScenario :: ScenarioInput where
  "creditBalanceScenario =
     \<lparr>scenario_id = ''credit'', currency = ''USD'', months = 1, initialCash = 0,
      incomes = [], expenses = [],
      debts = [\<lparr>debt_id = ''d1'', debt_label = ''Card in credit'', debt_balance = - 100,
                debt_annualRate = 0, debt_minPayment = 0, debt_strategy = Aggressive\<rparr>],
      investments = [],
      inflationRate = None, taxRate = None, oneTimeEvents = None, goals = None\<rparr>"

text \<open>The template \<^verbatim>\<open>Young Professional\<close> of \<^verbatim>\<open>lib/demo-data.ts\<close>.\<close>

definition youngProfessional :: ScenarioInput where
  "youngProfessional =
     \<lparr>scenario_id = ''demo'', currency = ''USD'', months = 60, initialCash = 8000,
      incomes =
        [\<lparr>inc_id = ''i1'', inc_label = ''Salary'', inc_amount = 4500,
          inc_startMonth = 0, inc_endMonth = None, inc_growthRate = 5\<rparr>,
         \<lparr>inc_id = ''i2'', inc_label = ''Freelance'', inc_amount = 500,
          inc_startMonth = 0, inc_endMonth = None, inc_growthRate = 0\<rparr>],
      expenses =
        [\<lparr>exp_id = ''e1'', exp_label = ''Rent'', exp_amount = 1400, category = Rent,
          exp_startMonth = 0, exp_endMonth = None, exp_growthRate = 3, isOneTime = None\<rparr>,
         \<lparr>exp_id = ''e2'', exp_label = ''Groceries'', exp_amount = 350, category = Fixed,
          exp_startMonth = 0, exp_endMonth = None, exp_growthRate = 2, isOneTime = None\<rparr>,
         \<lparr>exp_id = ''e3'', exp_label = ''Transport'', exp_amount = 200, category = Fixed,
          exp_startMonth = 0, exp_endMonth = None, exp_growthRate = 2, isOneTime = None\<rparr>,
         \<lparr>exp_id = ''e4'', exp_label = ''Dining & Social'', exp_amount = 300,
          category = Discretionary,
          exp_startMonth = 0, exp_endMonth = None, exp_growthRate = 2, isOneTime = None\<rparr>,
         \<lparr>exp_id = ''e5'', exp_label = ''Subscriptions'', exp_amount = 80,
          category = Discretionary,
          exp_startMonth = 0, exp_endMonth = None, exp_growthRate = 0, isOneTime = None\<rparr>,
         \<lparr>exp_id = ''e6'', exp_label = ''Utilities'', exp_amount = 120, category = Fixed,
          exp_startMonth = 0, exp_endMonth = None, exp_growthRate = 2, isOneTime = None\<rparr>],
      debts =
        [\<lparr>debt_id = ''d1'', debt_label = ''Student Loan'', debt_balance = 18000,
          debt_annualRate = fl (55 / 10), debt_minPayment = 200, debt_strategy = Aggressive\<rparr>,
         \<lparr>debt_id = ''d2'', debt_label = ''Credit Card'', debt_balance = 2500,
          debt_annualRate = fl (199 / 10), debt_minPayment = 75, debt_strategy = Aggressive\<rparr>],
      investments =
        [\<lparr>inv_id = ''inv1'', inv_label = ''401(k)'', currentValue = 5000,
          monthlyContribution = 300, expectedAnnualReturn = 7\<rparr>,
         \<lparr>inv_id = ''inv2'', inv_label = ''Index Fund'', currentValue = 2000,
          monthlyContribution = 150, expectedAnnualReturn = 8\<rparr>],
      inflationRate = None, taxRate = None, oneTimeEvents = None, goals = None\<rparr>"

text \<open>
  A forecast whose first five listed negative months are indices of its snapshots, as
  in every forecast that \<^verbatim>\<open>computeForecast\<close> returns.
\<close>

definition negativeMonthsInRange :: "ForecastResult \<Rightarrow> bool" where
  "negativeMonthsInRange fc \<longleftrightarrow>
     (\<forall>m\<in>set (take 5 (negativeCashMonths (summary fc))). m < length (snapshots fc))"

text \<open>A printing that writes every number as \<open>#\<close>.\<close>

definition plainPrinting :: Printing where
  "plainPrinting = \<lparr>toLocaleString = (\<lambda>n. ''#''), toStr = (\<lambda>n. ''#'')\<rparr>"

text \<open>\<^verbatim>\<open>BASE\<close> over one month, and the forecast the engine returns for it.\<close>

definition stableScenario :: ScenarioInput where
  "stableScenario = baseScenario\<lparr>months := 1\<rparr>"

definition stableForecast :: ForecastResult where
  "stableForecast =
     \<lparr>snapshots =
        [\<lparr>month = 0, cash = 110000, netWorth = 110000, totalDebt = 0, totalInvestments = 0,
          totalIncome = 20000, totalExpenses = 10000, totalDebtPayment = 0,
          totalInvestmentContribution = 0\<rparr>],
      summary =
        \<lparr>endCash = 110000, endNetWorth = 110000, minCash = 100000, minCashMonth = 0,
         negativeCashMonths = [], debtFreeMonth = None, totalInterestPaid = 0,
         endInvestmentValue = 0, totalTaxPaid = 0\<rparr>,
      goalProgress = []\<rparr>"

text \<open>
  One month of \<^verbatim>\<open>BASE\<close> with no initial cash and an expense of 30000, and the
  forecast the engine returns for it.
\<close>

definition shortfallScenario :: ScenarioInput where
  "shortfallScenario =
     baseScenario\<lparr>months := 1, initialCash := 0,
       expenses := [\<lparr>exp_id = ''e1'', exp_label = ''Huge cost'', exp_amount = 30000,
                     category = Fixed, exp_startMonth = 0, exp_endMonth = None,
                     exp_growthRate = 0, isOneTime = None\<rparr>]\<rparr>"

definition shortfallForecast :: ForecastResult where
  "shortfallForecast =
     \<lparr>snapshots =
        [\<lparr>month = 0, cash = - 10000, netWorth = - 10000, totalDebt = 0, totalInvestments = 0,
          totalIncome = 20000, totalExpenses = 30000, totalDebtPayment = 0,
          totalInvestmentContribution = 0\<rparr>],
      summary =
        \<lparr>endCash = - 10000, endNetWorth = - 10000, minCash = - 10000, minCashMonth = 0,
         negativeCashMonths = [0], debtFreeMonth = None, totalInterestPaid = 0,
         endInvestmentValue = 0, totalTaxPaid = 0\<rparr>,
      goalProgress = []\<rparr>"

section \<open>Properties\<close>

subsection \<open>Rounding to the nearest double\<close>

lemma rne_err: "\<bar>of_int (rne t) - t\<bar> \<le> 1 / 2"
  unfolding rne_def Let_def by (auto simp: abs_if; linarith)

lemma rne_of_int: "rne (of_int n) = n"
  by (simp add: rne_def)

lemma rne_eqI: "\<bar>t - of_int m\<bar> < 1 / 2 \<Longrightarrow> rne t = m"
  unfolding rne_def Let_def by (auto simp: abs_if split: if_splits; linarith)

lemma rne_nonneg: "0 \<le> t \<Longrightarrow> 0 \<le> rne t"
  unfolding rne_def Let_def by (auto; linarith)

lemma ilog2_bounds:
  assumes "x \<noteq> 0"
  shows "2 powi ilog2 x \<le> \<bar>x\<bar>" and "\<bar>x\<bar> < 2 powi (ilog2 x + 1)"
proof -
  obtain a b where ab: "quotient_of \<bar>x\<bar> = (a, b)" by (cases "quotient_of \<bar>x\<bar>")
  then have b: "0 < b" and x: "\<bar>x\<bar> = of_int a / of_int b"
    using quotient_of_denom_pos quotient_of_div by blast+
  have a: "0 < a"
  proof -
    from assms have "0 < \<bar>x\<bar>" by simp
    then have "0 < (of_int a :: rat) / of_int b" using x by simp
    with b have "(0::rat) < of_int a" by (simp add: zero_less_divide_iff)
    then show ?thesis by simp
  qed
  define la lb where "la = bitlen a" and "lb = bitlen b"
  from bitlen_bounds[OF a] have a1: "2 ^ nat (la - 1) \<le> a" and a2: "a < 2 ^ nat la"
    by (simp_all add: la_def)
  from bitlen_bounds[OF b] have b1: "2 ^ nat (lb - 1) \<le> b" and b2: "b < 2 ^ nat lb"
    by (simp_all add: lb_def)
  have la: "1 \<le> la" and lb: "1 \<le> lb"
    using a b bitlen_eq_zero_iff[of a] bitlen_eq_zero_iff[of b] bitlen_nonneg[of a] bitlen_nonneg[of b]
    by (auto simp: la_def lb_def)
  have A1: "(2::rat) powi (la - 1) \<le> of_int a"
  proof -
    have "(of_int (2 ^ nat (la - 1)) :: rat) \<le> of_int a" using a1 by (simp only: of_int_le_iff)
    then show ?thesis using la by (simp add: power_int_nonneg_exp)
  qed
  have A2: "of_int a < (2::rat) powi la"
  proof -
    have "(of_int a :: rat) < of_int (2 ^ nat la)" using a2 by (simp only: of_int_less_iff)
    then show ?thesis using la by (simp add: power_int_nonneg_exp)
  qed
  have B1: "(2::rat) powi (lb - 1) \<le> of_int b"
  proof -
    have "(of_int (2 ^ nat (lb - 1)) :: rat) \<le> of_int b" using b1 by (simp only: of_int_le_iff)
    then show ?thesis using lb by (simp add: power_int_nonneg_exp)
  qed
  have B2: "of_int b < (2::rat) powi lb"
  proof -
    have "(of_int b :: rat) < of_int (2 ^ nat lb)" using b2 by (simp only: of_int_less_iff)
    then show ?thesis using lb by (simp add: power_int_nonneg_exp)
  qed
  have bpos: "(0::rat) < of_int b" using b by simp
  have lower: "(2::rat) powi (la - lb - 1) \<le> \<bar>x\<bar>"
  proof -
    have "(2::rat) powi (la - lb - 1) * of_int b \<le> 2 powi (la - lb - 1) * 2 powi lb"
      using B2 by (intro mult_left_mono) simp_all
    also have "\<dots> = 2 powi (la - 1)"
      by (simp add: power_int_add[symmetric])
    also have "\<dots> \<le> of_int a" by (rule A1)
    finally show ?thesis unfolding x using bpos by (simp add: pos_le_divide_eq)
  qed
  have upper: "\<bar>x\<bar> < (2::rat) powi (la - lb + 1)"
  proof -
    have "of_int a < (2::rat) powi la" by (rule A2)
    also have "\<dots> = 2 powi (la - lb + 1) * 2 powi (lb - 1)"
      by (simp add: power_int_add[symmetric])
    also have "\<dots> \<le> 2 powi (la - lb + 1) * of_int b"
      using B1 by (intro mult_left_mono) simp_all
    finally show ?thesis unfolding x using bpos by (simp add: pos_divide_less_eq)
  qed
  have il: "ilog2 x = (if 2 powi (la - lb) \<le> \<bar>x\<bar> then la - lb else la - lb - 1)"
    by (simp add: ilog2_def ab la_def lb_def)
  show "2 powi ilog2 x \<le> \<bar>x\<bar>"
    using lower by (simp add: il)
  show "\<bar>x\<bar> < 2 powi (ilog2 x + 1)"
    using upper by (auto simp: il not_le)
qed

lemma ilog2_eqI:
  assumes "2 powi e \<le> \<bar>x\<bar>" and "\<bar>x\<bar> < 2 powi (e + 1)"
  shows "ilog2 x = e"
proof -
  from assms(1) have nz: "x \<noteq> 0"
    by (metis abs_zero not_le zero_less_numeral zero_less_power_int)
  note b = ilog2_bounds[OF nz]
  have "\<not> ilog2 x < e"
  proof
    assume "ilog2 x < e"
    then have "(2::rat) powi (ilog2 x + 1) \<le> 2 powi e"
      by (intro power_int_increasing) simp_all
    with b(2) assms(1) show False by linarith
  qed
  moreover have "\<not> e < ilog2 x"
  proof
    assume "e < ilog2 x"
    then have "(2::rat) powi (e + 1) \<le> 2 powi ilog2 x"
      by (intro power_int_increasing) simp_all
    with b(1) assms(2) show False by linarith
  qed
  ultimately show ?thesis by simp
qed

lemma fl_zero: "fl 0 = 0"
  by (simp add: fl_def)

lemma fl_nonneg: "0 \<le> x \<Longrightarrow> 0 \<le> fl x"
  by (simp add: fl_def Let_def rne_nonneg)

lemma fl_err_scale:
  assumes "x \<noteq> 0"
  shows "\<bar>fl x - x\<bar> \<le> 2 powi (max (ilog2 x - 52) (- 1074)) / 2"
proof -
  define q where "q = max (ilog2 x - 52) (- 1074)"
  have p: "(0::rat) < 2 powi q" by simp
  have "fl x - x = (of_int (rne (x / 2 powi q)) - x / 2 powi q) * 2 powi q"
    using assms p by (simp add: fl_def q_def Let_def field_simps)
  then have "\<bar>fl x - x\<bar> = \<bar>of_int (rne (x / 2 powi q)) - x / 2 powi q\<bar> * 2 powi q"
    by (simp add: abs_mult)
  also have "\<dots> \<le> 1 / 2 * 2 powi q"
    using rne_err[of "x / 2 powi q"] by (intro mult_right_mono) simp_all
  finally show ?thesis by (simp add: q_def)
qed

lemma fl_err:
  assumes "\<bar>x\<bar> \<le> 2 ^ k"
  shows "\<bar>fl x - x\<bar> \<le> 2 ^ k / 2 ^ 53"
proof (cases "x = 0")
  case True
  then show ?thesis by (simp add: fl_zero)
next
  case False
  have "\<not> int k < ilog2 x"
  proof
    assume "int k < ilog2 x"
    then have "(2::rat) powi (int k + 1) \<le> 2 powi ilog2 x"
      by (intro power_int_increasing) simp_all
    moreover have "(2::rat) powi int k < 2 powi (int k + 1)"
      by (intro power_int_strict_increasing) simp_all
    ultimately show False using ilog2_bounds(1)[OF False] assms by simp
  qed
  then have "max (ilog2 x - 52) (- 1074) \<le> int k - 52" by simp
  then have "(2::rat) powi (max (ilog2 x - 52) (- 1074)) \<le> 2 powi (int k - 52)"
    by (intro power_int_increasing) simp_all
  also have "\<dots> = 2 ^ k / 2 ^ 52"
    by (simp add: power_int_diff)
  finally have "(2::rat) powi (max (ilog2 x - 52) (- 1074)) / 2 \<le> 2 ^ k / 2 ^ 53"
    by simp
  with fl_err_scale[OF False] show ?thesis by linarith
qed



lemma fl_eq_down:
  assumes lo: "2 ^ 52 \<le> \<bar>x\<bar> * 2 ^ s" and hi: "\<bar>x\<bar> * 2 ^ s < 2 ^ 53" and s: "s \<le> 1074"
    and m: "\<bar>x * 2 ^ s - of_int m\<bar> < 1 / 2"
  shows "fl x = of_int m / 2 ^ s"
proof -
  have p: "(0::rat) < 2 ^ s" by simp
  from lo have nz: "x \<noteq> 0" by auto
  have "(2::rat) powi (52 - int s) = 2 ^ 52 / 2 ^ s"
    by (simp add: power_int_diff)
  also have "\<dots> \<le> \<bar>x\<bar>" using lo p by (simp add: pos_divide_le_eq)
  finally have l: "(2::rat) powi (52 - int s) \<le> \<bar>x\<bar>" .
  have "\<bar>x\<bar> < 2 ^ 53 / 2 ^ s" using hi p by (simp add: pos_less_divide_eq)
  also have "\<dots> = (2::rat) powi (52 - int s + 1)"
    by (simp add: power_int_diff power_int_add)
  finally have h: "\<bar>x\<bar> < (2::rat) powi (52 - int s + 1)" .
  from ilog2_eqI[OF l h] s have q: "max (ilog2 x - 52) (- 1074) = - int s" by simp
  have "x / 2 powi (- int s) = x * 2 ^ s" by (simp add: power_int_minus field_simps)
  with m have "rne (x / 2 powi (- int s)) = m" by (simp add: rne_eqI)
  with nz q show ?thesis by (simp add: fl_def Let_def power_int_minus field_simps)
qed

lemma fl_fix:
  assumes "x / 2 powi (max (ilog2 x - 52) (- 1074)) = of_int j"
  shows "fl x = x"
proof (cases "x = 0")
  case True
  then show ?thesis by (simp add: fl_zero)
next
  case False
  define q where "q = max (ilog2 x - 52) (- 1074)"
  have p: "(2::rat) powi q \<noteq> 0" by simp
  from assms have "rne (x / 2 powi q) = j" by (simp only: q_def rne_of_int)
  then have "fl x = of_int j * 2 powi q" using False by (simp add: fl_def Let_def q_def)
  also have "of_int j = x / 2 powi q" using assms by (simp add: q_def)
  also have "x / 2 powi q * 2 powi q = x" using p by simp
  finally show ?thesis .
qed

lemma fl_of_int:
  assumes "\<bar>k\<bar> \<le> 2 ^ 53"
  shows "fl (of_int k) = of_int k"
proof (cases "k = 0")
  case True
  then show ?thesis by (simp add: fl_zero)
next
  case False
  define x :: rat where "x = of_int k"
  from False have nz: "x \<noteq> 0" by (simp add: x_def)
  define e where "e = ilog2 x"
  have ax: "\<bar>x\<bar> \<le> 2 ^ 53"
  proof -
    have "(of_int \<bar>k\<bar> :: rat) \<le> of_int (2 ^ 53)" using assms by (simp only: of_int_le_iff)
    then show ?thesis by (simp add: x_def)
  qed
  have one: "1 \<le> \<bar>x\<bar>"
  proof -
    from False have "1 \<le> \<bar>k\<bar>" by simp
    then have "(of_int 1 :: rat) \<le> of_int \<bar>k\<bar>" by (simp only: of_int_le_iff)
    then show ?thesis by (simp add: x_def)
  qed
  have e_ge: "0 \<le> e"
  proof (rule ccontr)
    assume "\<not> 0 \<le> e"
    then have "(2::rat) powi (e + 1) \<le> 2 powi 0"
      by (intro power_int_increasing) simp_all
    with ilog2_bounds(2)[OF nz] one show False by (simp add: e_def)
  qed
  have e_le: "e \<le> 53"
  proof (rule ccontr)
    assume "\<not> e \<le> 53"
    then have "(2::rat) powi 54 \<le> 2 powi e"
      by (intro power_int_increasing) simp_all
    with ilog2_bounds(1)[OF nz] ax show False by (simp add: e_def)
  qed
  have q: "max (ilog2 x - 52) (- 1074) = e - 52" using e_ge by (simp add: e_def)
  have "\<exists>j. x / 2 powi (e - 52) = of_int j"
  proof (cases "e \<le> 52")
    case True
    define n where "n = nat (52 - e)"
    have "e - 52 = - int n" using True by (simp add: n_def)
    then have "x / 2 powi (e - 52) = x * 2 ^ n"
      by (simp add: power_int_minus divide_inverse)
    also have "\<dots> = of_int (k * 2 ^ n)" by (simp add: x_def)
    finally show ?thesis by blast
  next
    case False
    with e_le have e53: "e = 53" by simp
    with ilog2_bounds(1)[OF nz] ax have "\<bar>x\<bar> = 2 ^ 53" by (simp add: e_def)
    then have "x = 2 ^ 53 \<or> x = - (2 ^ 53)" by (auto simp: abs_if split: if_splits)
    then show ?thesis
    proof
      assume xv: "x = 2 ^ 53"
      have "x / 2 powi (e - 52) = of_int (2 ^ 52)" by (simp add: e53 xv)
      then show ?thesis by blast
    next
      assume xv: "x = - (2 ^ 53)"
      have "x / 2 powi (e - 52) = of_int (- (2 ^ 52))" by (simp add: e53 xv)
      then show ?thesis by blast
    qed
  qed
  then obtain j where "x / 2 powi (e - 52) = of_int j" by blast
  with q have "x / 2 powi (max (ilog2 x - 52) (- 1074)) = of_int j" by simp
  from fl_fix[OF this] show ?thesis by (simp add: x_def)
qed

subsection \<open>Operations on doubles and rounding to two decimals\<close>

lemma fl_one: "fl 1 = 1"
  using fl_of_int[of 1] by simp

lemma fl_numeral: "numeral n \<le> (9007199254740992 :: int) \<Longrightarrow> fl (numeral n) = numeral n"
  using fl_of_int[of "numeral n"] by simp

lemma fl_neg_numeral:
  "numeral n \<le> (9007199254740992 :: int) \<Longrightarrow> fl (- numeral n) = - numeral n"
  using fl_of_int[of "- numeral n"] by simp

lemma fadd_0_left: "fadd 0 x = fl x" by (simp add: fadd_def)
lemma fadd_0_right: "fadd x 0 = fl x" by (simp add: fadd_def)
lemma fsub_0_right: "fsub x 0 = fl x" by (simp add: fsub_def)
lemma fmul_0_left: "fmul 0 x = 0" by (simp add: fmul_def fl_zero)
lemma fmul_0_right: "fmul x 0 = 0" by (simp add: fmul_def fl_zero)
lemma fmul_1_right: "fmul x 1 = fl x" by (simp add: fmul_def)
lemma fdiv_0_left: "fdiv 0 y = 0" by (simp add: fdiv_def fl_zero)

lemma Math_round_of_int: "Math_round (of_int k) = k"
  unfolding Math_round_def by (rule floor_unique) simp_all

lemma Math_round_near: "\<bar>y - of_int n\<bar> < 1 / 2 \<Longrightarrow> Math_round y = n"
  unfolding Math_round_def by (rule floor_unique) (simp_all add: abs_if split: if_splits)

lemma Math_round_eqI:
  "of_int n \<le> y + 1 / 2 \<Longrightarrow> y + 1 / 2 < of_int n + 1 \<Longrightarrow> Math_round y = n"
  unfolding Math_round_def by (rule floor_unique)

lemma Math_round_nonneg: "0 \<le> y \<Longrightarrow> 0 \<le> Math_round y"
  unfolding Math_round_def by simp

lemma r2_cents: "r2 x = cents (Math_round (fmul x 100))"
  by (simp add: r2_def cents_def)

lemma cents_zero: "cents 0 = 0"
  by (simp add: cents_def fdiv_0_left)

lemma r2_zero: "r2 0 = 0"
  using Math_round_of_int[of 0] by (simp add: r2_def fmul_0_left fdiv_0_left)

lemma r2_nonneg: "0 \<le> x \<Longrightarrow> 0 \<le> r2 x"
  by (simp add: r2_def fmul_def fdiv_def fl_nonneg Math_round_nonneg)

lemma cents_hundred:
  assumes "\<bar>k\<bar> \<le> 2 ^ 46"
  shows "cents (k * 100) = of_int k"
proof -
  have "\<bar>k\<bar> \<le> 2 ^ 53" using assms by simp
  then show ?thesis by (simp add: cents_def fdiv_def fl_of_int)
qed

lemma r2_of_int:
  assumes "\<bar>k\<bar> \<le> 2 ^ 46"
  shows "r2 (of_int k) = of_int k"
proof -
  have "\<bar>k * 100\<bar> \<le> 2 ^ 46 * 100" using assms by (simp add: abs_mult)
  then have "\<bar>k * 100\<bar> \<le> 2 ^ 53" by simp
  from fl_of_int[OF this] have "fmul (of_int k) 100 = of_int (k * 100)"
    by (simp add: fmul_def)
  then have "r2 (of_int k) = cents (k * 100)"
    by (simp only: r2_cents Math_round_of_int)
  with cents_hundred[OF assms] show ?thesis by simp
qed

lemma r2_numeral: "numeral n \<le> (70368744177664 :: int) \<Longrightarrow> r2 (numeral n) = numeral n"
  using r2_of_int[of "numeral n"] by simp

lemma r2_neg_numeral:
  "numeral n \<le> (70368744177664 :: int) \<Longrightarrow> r2 (- numeral n) = - numeral n"
  using r2_of_int[of "- numeral n"] by simp

subsection \<open>Sums of whole cents\<close>

lemma near_refl: "near 0 x x"
  by (simp add: near_def)

lemma near_add: "near j x u \<Longrightarrow> near k y v \<Longrightarrow> near (j + k) (x + y) (u + v)"
proof -
  assume "near j x u" and "near k y v"
  then have "\<bar>x - u\<bar> + \<bar>y - v\<bar> \<le> of_nat j / 2 ^ 19 + of_nat k / 2 ^ 19"
    unfolding near_def by (rule add_mono)
  moreover have "\<bar>x + y - (u + v)\<bar> \<le> \<bar>x - u\<bar> + \<bar>y - v\<bar>" by linarith
  ultimately show ?thesis unfolding near_def by (simp add: add_divide_distrib)
qed

lemma near_diff: "near j x u \<Longrightarrow> near k y v \<Longrightarrow> near (j + k) (x - y) (u - v)"
proof -
  assume "near j x u" and "near k y v"
  then have "\<bar>x - u\<bar> + \<bar>y - v\<bar> \<le> of_nat j / 2 ^ 19 + of_nat k / 2 ^ 19"
    unfolding near_def by (rule add_mono)
  moreover have "\<bar>x - y - (u - v)\<bar> \<le> \<bar>x - u\<bar> + \<bar>y - v\<bar>" by linarith
  ultimately show ?thesis unfolding near_def by (simp add: add_divide_distrib)
qed

lemma near_fl:
  assumes n: "near k x v" and v: "\<bar>v\<bar> \<le> 2 ^ 33" and k: "k \<le> 2 ^ 19"
  shows "near (Suc k) (fl x) v"
proof -
  have "(of_nat k :: rat) \<le> of_nat (2 ^ 19)" using k by (simp only: of_nat_le_iff)
  then have "(of_nat k :: rat) / 2 ^ 19 \<le> 1" by simp
  with n v have "\<bar>x\<bar> \<le> 2 ^ 33 + 1" unfolding near_def by linarith
  then have "\<bar>x\<bar> \<le> 2 ^ 34" by simp
  from fl_err[OF this] have "\<bar>fl x - x\<bar> \<le> 1 / 2 ^ 19" by simp
  moreover from n have "\<bar>x - v\<bar> \<le> of_nat k / 2 ^ 19" by (simp only: near_def)
  ultimately have "\<bar>fl x - x\<bar> + \<bar>x - v\<bar> \<le> 1 / 2 ^ 19 + of_nat k / 2 ^ 19"
    by (rule add_mono)
  moreover have "\<bar>fl x - v\<bar> \<le> \<bar>fl x - x\<bar> + \<bar>x - v\<bar>" by linarith
  ultimately show ?thesis unfolding near_def by (simp add: add_divide_distrib)
qed

lemma near_fadd:
  "near j x u \<Longrightarrow> near k y v \<Longrightarrow> \<bar>u + v\<bar> \<le> 2 ^ 33 \<Longrightarrow> j + k \<le> 2 ^ 19 \<Longrightarrow>
   near (Suc (j + k)) (fadd x y) (u + v)"
  unfolding fadd_def by (intro near_fl near_add)

lemma near_fsub:
  "near j x u \<Longrightarrow> near k y v \<Longrightarrow> \<bar>u - v\<bar> \<le> 2 ^ 33 \<Longrightarrow> j + k \<le> 2 ^ 19 \<Longrightarrow>
   near (Suc (j + k)) (fsub x y) (u - v)"
  unfolding fsub_def by (intro near_fl near_diff)

lemma near_cents:
  assumes "\<bar>n\<bar> \<le> 2 ^ 39"
  shows "near 1 (cents n) (of_int n / 100)"
proof -
  have "(of_int \<bar>n\<bar> :: rat) \<le> of_int (2 ^ 39)" using assms by (simp only: of_int_le_iff)
  then have "\<bar>of_int n :: rat\<bar> \<le> 2 ^ 39" by simp
  then have "\<bar>of_int n / 100 :: rat\<bar> \<le> 2 ^ 33" by simp
  from near_fl[OF near_refl this] show ?thesis by (simp add: cents_def fdiv_def)
qed

lemma near_r2:
  assumes n: "near k x (of_int n / 100)" and k: "k \<le> 2 ^ 11" and b: "\<bar>n\<bar> \<le> 2 ^ 39"
  shows "r2 x = cents n"
proof -
  have "(of_nat k :: rat) \<le> of_nat (2 ^ 11)" using k by (simp only: of_nat_le_iff)
  then have kk: "(of_nat k :: rat) / 2 ^ 19 \<le> 1 / 2 ^ 8" by simp
  with n have d: "\<bar>x - of_int n / 100\<bar> \<le> 1 / 2 ^ 8" unfolding near_def by linarith
  then have e: "\<bar>x * 100 - of_int n\<bar> \<le> 100 / 2 ^ 8"
    by (simp add: abs_if split: if_splits)
  have "(of_int \<bar>n\<bar> :: rat) \<le> of_int (2 ^ 39)" using b by (simp only: of_int_le_iff)
  then have nb: "\<bar>of_int n :: rat\<bar> \<le> 2 ^ 39" by simp
  have "(100::rat) / 2 ^ 8 \<le> 1" by simp
  with e nb have "\<bar>x * 100\<bar> \<le> 2 ^ 39 + 1" by linarith
  then have "\<bar>x * 100\<bar> \<le> 2 ^ 40" by simp
  from fl_err[OF this] have "\<bar>fl (x * 100) - x * 100\<bar> \<le> 1 / 2 ^ 13" by simp
  moreover have "(100::rat) / 2 ^ 8 + 1 / 2 ^ 13 < 1 / 2" by simp
  ultimately have "\<bar>fmul x 100 - of_int n\<bar> < 1 / 2" using e unfolding fmul_def by linarith
  then have "Math_round (fmul x 100) = n" by (rule Math_round_near)
  then show ?thesis by (simp add: r2_cents)
qed



text \<open>
  \<^verbatim>\<open>Math.floor(month / 12)\<close>, with the quotient rounded to a double, is \<open>m div 12\<close>
  for every month below \<open>2^50\<close>.
\<close>

lemma Math_floor_div_12:
  assumes "m < 2 ^ 50"
  shows "\<lfloor>fdiv (of_nat m) 12\<rfloor> = int (m div 12)"
proof -
  define q r where "q = m div 12" and "r = m mod 12"
  have m: "m = 12 * q + r" and r: "r < 12" by (simp_all add: q_def r_def)
  have x: "(of_nat m :: rat) / 12 = of_nat q + of_nat r / 12"
    unfolding m by (simp add: add_divide_distrib)
  show ?thesis
  proof (cases "r = 0")
    case True
    have "q \<le> m" by (simp add: q_def)
    with assms have "int q \<le> 2 ^ 50" by simp
    then have "\<bar>int q\<bar> \<le> 2 ^ 53" by simp
    from fl_of_int[OF this] have "fdiv (of_nat m) 12 = of_nat q"
      by (simp add: fdiv_def x True)
    then show ?thesis by (simp add: q_def)
  next
    case False
    with r have "1 \<le> r" "r \<le> 11" by simp_all
    then have "(of_nat 1 :: rat) \<le> of_nat r" "(of_nat r :: rat) \<le> of_nat 11"
      by (simp_all only: of_nat_le_iff)
    then have lo: "(of_nat q :: rat) + 1 / 12 \<le> of_nat m / 12"
      and hi: "(of_nat m :: rat) / 12 \<le> of_nat q + 11 / 12"
      unfolding x by simp_all
    from assms have "(of_nat m :: rat) < of_nat (2 ^ 50)" by (simp only: of_nat_less_iff)
    then have "\<bar>of_nat m / 12 :: rat\<bar> \<le> 2 ^ 47" by simp
    from fl_err[OF this] have e: "\<bar>fdiv (of_nat m) 12 - of_nat m / 12\<bar> \<le> 1 / 64"
      by (simp add: fdiv_def)
    have a: "(of_nat q :: rat) \<le> fdiv (of_nat m) 12" using lo e by linarith
    have b: "fdiv (of_nat m) 12 < (of_nat q :: rat) + 1" using hi e by linarith
    have "\<lfloor>fdiv (of_nat m) 12\<rfloor> = int q"
    proof (rule floor_unique)
      show "of_int (int q) \<le> fdiv (of_nat m) 12" using a by simp
      show "fdiv (of_nat m) 12 < of_int (int q) + 1" using b by simp
    qed
    then show ?thesis by (simp add: q_def)
  qed
qed

lemma years_div_12:
  "m < 2 ^ 50 \<Longrightarrow> nat (Math_floor (fdiv (of_nat m) 12)) = m div 12"
  by (simp add: Math_floor_def Math_floor_div_12)

subsection \<open>The month loop as iteration of its body\<close>

declare forecastLoop.simps [simp del]

lemma forecastLoop_stateAfter:
  "st = stateAfter pw sc m \<Longrightarrow> m \<le> nat (months sc) \<Longrightarrow>
   forecastLoop pw sc m st = stateAfter pw sc (nat (months sc))"
proof (induction pw sc m st rule: forecastLoop.induct)
  case (1 pw sc m st)
  show ?case
  proof (cases "int m < months sc")
    case True
    then have "forecastLoop pw sc m st = forecastLoop pw sc (Suc m) (monthStep pw sc m st)"
      by (simp add: forecastLoop.simps[of pw sc m st])
    also have "\<dots> = stateAfter pw sc (nat (months sc))"
      using "1.IH"[OF True] "1.prems" True by simp
    finally show ?thesis .
  next
    case False
    then have "forecastLoop pw sc m st = st"
      by (simp add: forecastLoop.simps[of pw sc m st])
    moreover from False "1.prems" have "m = nat (months sc)" by linarith
    ultimately show ?thesis using "1.prems" by simp
  qed
qed

lemma forecastLoop_init: "forecastLoop pw sc 0 (initState sc) = stateAfter pw sc (nat (months sc))"
  by (rule forecastLoop_stateAfter) simp_all

lemma monthStep_snapshots:
  "st_snapshots (monthStep pw sc m st) =
     st_snapshots st @ [last (st_snapshots (monthStep pw sc m st))]"
  by (simp add: monthStep_def Let_def split: prod.splits)

lemma monthStep_last_fields:
  "month (last (st_snapshots (monthStep pw sc m st))) = m"
  "cash (last (st_snapshots (monthStep pw sc m st))) = st_cash (monthStep pw sc m st)"
  "totalIncome (last (st_snapshots (monthStep pw sc m st))) = netIncome pw sc m"
  "totalExpenses (last (st_snapshots (monthStep pw sc m st))) = expensesTotal pw sc m"
  "totalDebtPayment (last (st_snapshots (monthStep pw sc m st))) =
     fst (snd (debtLoop (max 0 (preDebtCash pw sc m (st_cash st))) (st_debtStates st) 0 0))"
  "totalInvestmentContribution (last (st_snapshots (monthStep pw sc m st))) =
     snd (invLoop (investments sc) (st_invValues st) 0)"
  by (simp_all add: monthStep_def Let_def split: prod.splits)

lemma monthStep_cash:
  "st_cash (monthStep pw sc m st) =
     r2 (fsub (fsub (preDebtCash pw sc m (st_cash st))
                 (fst (snd (debtLoop (max 0 (preDebtCash pw sc m (st_cash st)))
                              (st_debtStates st) 0 0))))
           (snd (invLoop (investments sc) (st_invValues st) 0)))"
  by (simp add: monthStep_def Let_def split: prod.splits)

lemma monthStep_debtStates:
  "st_debtStates (monthStep pw sc m st) =
     fst (debtLoop (max 0 (preDebtCash pw sc m (st_cash st))) (st_debtStates st) 0 0)"
  by (simp add: monthStep_def Let_def split: prod.splits)

lemma length_snapshots_stateAfter: "length (st_snapshots (stateAfter pw sc n)) = n"
proof (induction n)
  case 0
  show ?case by (simp add: initState_def)
next
  case (Suc n)
  have "length (st_snapshots (monthStep pw sc n (stateAfter pw sc n))) =
        Suc (length (st_snapshots (stateAfter pw sc n)))"
    by (subst monthStep_snapshots) simp
  with Suc show ?case by simp
qed

lemma snapshots_stateAfter_Suc:
  "st_snapshots (stateAfter pw sc (Suc n)) =
     st_snapshots (stateAfter pw sc n) @ [last (st_snapshots (stateAfter pw sc (Suc n)))]"
  using monthStep_snapshots[of pw sc n "stateAfter pw sc n"] by simp

lemma snapshots_stateAfter_nth:
  "k < n \<Longrightarrow> st_snapshots (stateAfter pw sc n) ! k = last (st_snapshots (stateAfter pw sc (Suc k)))"
proof (induction n)
  case 0
  then show ?case by simp
next
  case (Suc n)
  note eq = snapshots_stateAfter_Suc[of pw sc n]
  show ?case
  proof (cases "k < n")
    case True
    then have "st_snapshots (stateAfter pw sc (Suc n)) ! k = st_snapshots (stateAfter pw sc n) ! k"
      by (subst eq) (simp add: nth_append length_snapshots_stateAfter)
    with Suc.IH True show ?thesis by simp
  next
    case False
    with Suc.prems have "k = n" by simp
    then show ?thesis
      by (subst eq) (simp add: nth_append length_snapshots_stateAfter)
  qed
qed

lemma length_goalAchieved_stateAfter:
  "length (st_goalAchievedMonth (stateAfter pw sc n)) = length (goalsOf sc)"
proof (induction n)
  case 0
  show ?case by (simp add: initState_def)
next
  case (Suc n)
  then show ?case by (simp add: monthStep_def Let_def split: prod.splits)
qed

subsection \<open>When \<^verbatim>\<open>computeForecast\<close> returns\<close>

lemma goalProgressAll_ok:
  "snaps \<noteq> [] \<Longrightarrow> \<forall>g\<in>set gs. 0 \<le> targetMonth g \<Longrightarrow>
   \<exists>ps. goalProgressAll snaps gs as = Inr ps"
proof (induction snaps gs as rule: goalProgressAll.induct)
  case (1 snaps g gs a as)
  from "1.prems" have "\<not> min (targetMonth g) (int (length snaps) - 1) < 0"
    by (cases snaps) auto
  then obtain p where p: "goalProgressOf snaps g a = Inr p"
    by (simp add: goalProgressOf_def Let_def)
  from "1.IH"[OF p] "1.prems" obtain ps where "goalProgressAll snaps gs as = Inr ps"
    by auto
  with p show ?case by simp
qed simp_all

lemma goalProgressAll_Inr_targets:
  "goalProgressAll snaps gs as = Inr ps \<Longrightarrow> length as = length gs \<Longrightarrow>
   \<forall>g\<in>set gs. 0 \<le> targetMonth g"
proof (induction snaps gs as arbitrary: ps rule: goalProgressAll.induct)
  case (1 snaps g gs a as)
  from "1.prems"(1) obtain p where p: "goalProgressOf snaps g a = Inr p"
    by (auto split: sum.splits)
  from "1.prems"(1) p obtain ps' where ps': "goalProgressAll snaps gs as = Inr ps'"
    by (auto split: sum.splits)
  from p have "0 \<le> targetMonth g"
    by (auto simp: goalProgressOf_def Let_def split: if_splits)
  moreover from "1.IH"[OF p ps'] "1.prems"(2) have "\<forall>g\<in>set gs. 0 \<le> targetMonth g"
    by simp
  ultimately show ?case by simp
qed simp_all

lemma computeForecast_Inr:
  assumes "computeForecast pw sc = Inr r"
  shows "snapshots r = st_snapshots (stateAfter pw sc (nat (months sc)))"
    and "1 \<le> months sc"
    and "minCash (summary r) = st_minCash (stateAfter pw sc (nat (months sc)))"
    and "minCashMonth (summary r) = st_minCashMonth (stateAfter pw sc (nat (months sc)))"
    and "negativeCashMonths (summary r) =
           st_negativeCashMonths (stateAfter pw sc (nat (months sc)))"
    and "\<forall>g\<in>set (goalsOf sc). 0 \<le> targetMonth g"
    and "totalInterestPaid (summary r) = st_totalInterestPaid (stateAfter pw sc (nat (months sc)))"
    and "totalTaxPaid (summary r) = st_totalTaxPaid (stateAfter pw sc (nat (months sc)))"
proof -
  let ?st = "stateAfter pw sc (nat (months sc))"
  from assms obtain gp where
    gp: "goalProgressAll (st_snapshots ?st) (goalsOf sc) (st_goalAchievedMonth ?st) = Inr gp"
    and ne: "st_snapshots ?st \<noteq> []"
    and r: "r = \<lparr>snapshots = st_snapshots ?st,
                 summary =
                   \<lparr>endCash = cash (st_snapshots ?st ! (length (st_snapshots ?st) - 1)),
                    endNetWorth = netWorth (st_snapshots ?st ! (length (st_snapshots ?st) - 1)),
                    minCash = st_minCash ?st,
                    minCashMonth = st_minCashMonth ?st,
                    negativeCashMonths = st_negativeCashMonths ?st,
                    debtFreeMonth = st_debtFreeMonth ?st,
                    totalInterestPaid = st_totalInterestPaid ?st,
                    endInvestmentValue =
                      totalInvestments (st_snapshots ?st ! (length (st_snapshots ?st) - 1)),
                    totalTaxPaid = st_totalTaxPaid ?st\<rparr>,
                 goalProgress = gp\<rparr>"
    by (auto simp: computeForecast_def forecastLoop_init Let_def split: sum.splits if_splits)
  from r show "snapshots r = st_snapshots ?st" by simp
  from r show "minCash (summary r) = st_minCash ?st" by simp
  from r show "minCashMonth (summary r) = st_minCashMonth ?st" by simp
  from r show "negativeCashMonths (summary r) = st_negativeCashMonths ?st" by simp
  from r show "totalInterestPaid (summary r) = st_totalInterestPaid ?st" by simp
  from r show "totalTaxPaid (summary r) = st_totalTaxPaid ?st" by simp
  from ne have "length (st_snapshots ?st) \<noteq> 0" by simp
  then show "1 \<le> months sc" by (simp add: length_snapshots_stateAfter)
  from gp show "\<forall>g\<in>set (goalsOf sc). 0 \<le> targetMonth g"
    by (rule goalProgressAll_Inr_targets) (simp add: length_goalAchieved_stateAfter)
qed

lemma computeForecast_returns:
  assumes "1 \<le> months sc" and "\<forall>g\<in>set (goalsOf sc). 0 \<le> targetMonth g"
  shows "\<exists>r. computeForecast pw sc = Inr r"
proof -
  let ?st = "stateAfter pw sc (nat (months sc))"
  from assms(1) have "length (st_snapshots ?st) \<noteq> 0"
    by (simp add: length_snapshots_stateAfter)
  then have ne: "st_snapshots ?st \<noteq> []" by simp
  from goalProgressAll_ok[OF ne assms(2)] obtain gp where
    "goalProgressAll (st_snapshots ?st) (goalsOf sc) (st_goalAchievedMonth ?st) = Inr gp"
    by blast
  with ne show ?thesis
    by (simp add: computeForecast_def forecastLoop_init Let_def)
qed

lemma computeForecast_raises:
  assumes "\<not> (1 \<le> months sc \<and> (\<forall>g\<in>set (goalsOf sc). 0 \<le> targetMonth g))"
  shows "computeForecast pw sc = Inl TypeError"
proof (cases "computeForecast pw sc")
  case (Inl e)
  then show ?thesis by (cases e) simp
next
  case (Inr r)
  with computeForecast_Inr(2,6)[OF Inr] assms show ?thesis by blast
qed

lemma computeForecast_length:
  assumes "computeForecast pw sc = Inr r"
  shows "int (length (snapshots r)) = months sc"
  using computeForecast_Inr(1,2)[OF assms] by (simp add: length_snapshots_stateAfter)

lemma computeForecast_nth:
  assumes "computeForecast pw sc = Inr r" and "k < length (snapshots r)"
  shows "snapshots r ! k = last (st_snapshots (stateAfter pw sc (Suc k)))"
  using assms computeForecast_Inr(1)[OF assms(1)]
  by (simp add: snapshots_stateAfter_nth length_snapshots_stateAfter)

text \<open>
  C1 (as amended). \<^verbatim>\<open>computeForecast\<close> returns a result, with one snapshot per
  month of the horizon, for every scenario whose horizon is at least one month and whose
  goals all have a target month of at least zero: whatever the amounts, rates and line
  items are (empty lists, negative balances, absent optional fields), it does not raise.
\<close>

theorem computeForecast_returns_on_positive_horizon:
  assumes "1 \<le> months sc" and "\<forall>g\<in>set (goalsOf sc). 0 \<le> targetMonth g"
  shows "\<exists>r. computeForecast pw sc = Inr r \<and> int (length (snapshots r)) = months sc"
proof -
  from assms obtain r where r: "computeForecast pw sc = Inr r"
    using computeForecast_returns by blast
  from computeForecast_length[OF r] r show ?thesis by blast
qed

theorem computeForecast_returns_on_positive_horizon_witness:
  "\<exists>r. computeForecast powRef creditBalanceScenario = Inr r \<and> int (length (snapshots r)) = 1"
proof -
  have "1 \<le> months creditBalanceScenario"
    "\<forall>g\<in>set (goalsOf creditBalanceScenario). 0 \<le> targetMonth g"
    by (simp_all add: creditBalanceScenario_def goalsOf_def)
  from computeForecast_returns_on_positive_horizon[OF this] show ?thesis
    by (simp add: creditBalanceScenario_def)
qed

text \<open>
  C1 as stated fails on a horizon that yields no simulated month: on \<^verbatim>\<open>BASE\<close> with
  \<^verbatim>\<open>months: 0\<close> the list \<^verbatim>\<open>snapshots\<close> stays empty, \<^verbatim>\<open>last\<close> is
  \<^verbatim>\<open>undefined\<close> and \<^verbatim>\<open>last.cash\<close> raises a TypeError.
\<close>

theorem computeForecast_zero_horizon_raises:
  "computeForecast powRef zeroHorizonScenario = Inl TypeError"
  by (rule computeForecast_raises) (simp add: zeroHorizonScenario_def baseScenario_def)

text \<open>
  C6. For a valid scenario (a horizon of 1 to 360 months) the month loop leaves exactly
  \<^verbatim>\<open>months\<close> snapshots, snapshot \<open>k\<close> carrying the month index \<open>k\<close>; these are the
  \<^verbatim>\<open>snapshots\<close> of the result, and the result is returned whenever the target months of
  the goals, if there are goals, are 0-based month indices.
\<close>

theorem snapshot_count:
  assumes "1 \<le> months sc" and "months sc \<le> 360"
  shows "int (length (st_snapshots (forecastLoop pw sc 0 (initState sc)))) = months sc
       \<and> (\<forall>k<nat (months sc). month (st_snapshots (forecastLoop pw sc 0 (initState sc)) ! k) = k)
       \<and> (\<forall>r. computeForecast pw sc = Inr r \<longrightarrow>
             snapshots r = st_snapshots (forecastLoop pw sc 0 (initState sc)))
       \<and> ((\<forall>g\<in>set (goalsOf sc). 0 \<le> targetMonth g) \<longrightarrow>
            (\<exists>r. computeForecast pw sc = Inr r \<and> int (length (snapshots r)) = months sc
                 \<and> (\<forall>k<length (snapshots r). month (snapshots r ! k) = k)))"
proof (intro conjI allI impI)
  show "int (length (st_snapshots (forecastLoop pw sc 0 (initState sc)))) = months sc"
    using assms(1) by (simp add: forecastLoop_init length_snapshots_stateAfter)
  show "month (st_snapshots (forecastLoop pw sc 0 (initState sc)) ! k) = k"
    if "k < nat (months sc)" for k
    using that by (simp add: forecastLoop_init snapshots_stateAfter_nth monthStep_last_fields)
  show "snapshots r = st_snapshots (forecastLoop pw sc 0 (initState sc))"
    if "computeForecast pw sc = Inr r" for r
    using computeForecast_Inr(1)[OF that] by (simp add: forecastLoop_init)
  assume "\<forall>g\<in>set (goalsOf sc). 0 \<le> targetMonth g"
  from computeForecast_returns[OF assms(1) this] obtain r where r: "computeForecast pw sc = Inr r"
    by blast
  have "month (snapshots r ! k) = k" if "k < length (snapshots r)" for k
    using computeForecast_nth[OF r that] by (simp add: monthStep_last_fields)
  with r computeForecast_length[OF r]
  show "\<exists>r. computeForecast pw sc = Inr r \<and> int (length (snapshots r)) = months sc
           \<and> (\<forall>k<length (snapshots r). month (snapshots r ! k) = k)"
    by blast
qed

theorem snapshot_count_witness:
  "\<exists>r. computeForecast powRef baseScenario = Inr r \<and> int (length (snapshots r)) = 60
       \<and> month (snapshots r ! 59) = 59"
proof -
  have "1 \<le> months baseScenario" "months baseScenario \<le> 360"
    by (simp_all add: baseScenario_def)
  from snapshot_count[OF this] have
    "(\<forall>g\<in>set (goalsOf baseScenario). 0 \<le> targetMonth g) \<longrightarrow>
       (\<exists>r. computeForecast powRef baseScenario = Inr r
           \<and> int (length (snapshots r)) = months baseScenario
           \<and> (\<forall>k<length (snapshots r). month (snapshots r ! k) = k))"
    by blast
  moreover have "\<forall>g\<in>set (goalsOf baseScenario). 0 \<le> targetMonth g"
    by (simp add: baseScenario_def goalsOf_def)
  ultimately obtain r where
    r: "computeForecast powRef baseScenario = Inr r"
       "int (length (snapshots r)) = months baseScenario"
       "\<forall>k<length (snapshots r). month (snapshots r ! k) = k"
    by blast
  from r(2) have "length (snapshots r) = 60" by (simp add: baseScenario_def)
  with r show ?thesis by (simp add: baseScenario_def)
qed

subsection \<open>Income and expense schedules\<close>

lemma monthlyIncome_contribution:
  "m < 2 ^ 50 \<Longrightarrow> monthlyIncome pw i m = incomeContribution pw i m"
  by (auto simp: monthlyIncome_def incomeContribution_def incomeActive_def yearlyAmount_def
      Let_def years_div_12 split: option.splits)

lemma monthlyExpense_contribution:
  "m < 2 ^ 50 \<Longrightarrow>
   fmul (monthlyExpense pw ex m) (inflationMultiplier pw sc m) = expenseContribution pw sc ex m"
  by (auto simp: monthlyExpense_def expenseContribution_def expenseActive_def yearlyAmount_def
      inflationMultiplier_def monthlyInflation_def Let_def fmul_0_left years_div_12
      split: option.splits)

lemma expensesTotal_fold:
  "m < 2 ^ 50 \<Longrightarrow>
   expensesTotal pw sc m =
     r2 (foldl (\<lambda>s ex. fadd s (expenseContribution pw sc ex m)) 0 (expenses sc))"
  by (simp add: expensesTotal_def monthlyExpense_contribution)

lemma grossIncome_fold:
  "m < 2 ^ 50 \<Longrightarrow>
   grossIncome pw sc m = r2 (foldl (\<lambda>s i. fadd s (incomeContribution pw i m)) 0 (incomes sc))"
  by (simp add: grossIncome_def monthlyIncome_contribution)

text \<open>
  C5. In the snapshot of month \<open>m\<close>, \<^verbatim>\<open>totalExpenses\<close> is the rounded running sum,
  over the expense items in input order, of the contribution of each: for an item active
  in month \<open>m\<close> its amount compounded yearly, \<open>amount \<times> (1 + growthRate/100)^floor(m/12)\<close>,
  rounded to two decimals and then multiplied by the inflation multiplier
  \<open>(1 + inflationRate/100/12)^m\<close> (and nothing for an inactive item). \<^verbatim>\<open>totalIncome\<close>
  is built from the income items with the same yearly exponent \<open>floor(m/12)\<close> and no
  inflation multiplier: the rounded running sum of the yearly-compounded amounts, less
  the tax on it. The operations are those on doubles and the powers those of
  \<^verbatim>\<open>Math.pow\<close>; the month is below \<open>2^50\<close>, where \<^verbatim>\<open>Math.floor(month / 12)\<close>
  on doubles is \<open>floor(m/12)\<close>.
\<close>

theorem expense_and_income_schedule:
  assumes "computeForecast pw sc = Inr r" and "m < length (snapshots r)" and "m < 2 ^ 50"
  shows "totalExpenses (snapshots r ! m) =
           r2 (foldl (\<lambda>s ex. fadd s (expenseContribution pw sc ex m)) 0 (expenses sc))
       \<and> totalIncome (snapshots r ! m) =
           r2 (fsub (r2 (foldl (\<lambda>s i. fadd s (incomeContribution pw i m)) 0 (incomes sc)))
                 (r2 (fmul (r2 (foldl (\<lambda>s i. fadd s (incomeContribution pw i m)) 0
                                  (incomes sc)))
                        (fdiv (taxRateOf sc) 100))))"
  using computeForecast_nth[OF assms(1,2)] assms(3)
  by (simp add: monthStep_last_fields expensesTotal_fold netIncome_def taxThisMonth_def
      grossIncome_fold)

theorem expense_and_income_schedule_witness:
  "\<exists>r. computeForecast powRef growthScenario = Inr r
       \<and> totalExpenses (snapshots r ! 12) = cents 934
       \<and> totalIncome (snapshots r ! 12) = 1"
proof -
  have "1 \<le> months growthScenario" "\<forall>g\<in>set (goalsOf growthScenario). 0 \<le> targetMonth g"
    by (simp_all add: growthScenario_def goalsOf_def)
  from computeForecast_returns[OF this] obtain r where
    r: "computeForecast powRef growthScenario = Inr r"
    by blast
  from computeForecast_length[OF r] have len: "12 < length (snapshots r)"
    by (simp add: growthScenario_def)
  have e1: "fl (1 / 2) = 1 / 2"
    using fl_eq_down[of "1 / 2" 53 "4503599627370496"] by simp
  have e2: "fdiv (1 / 2) 100 = 5764607523034235 / 1152921504606846976"
    using fl_eq_down[of "(1 / 2) / 100" 60 "5764607523034235"] by (simp add: fdiv_def)
  have e3: "fadd 1 (5764607523034235 / 1152921504606846976) = 1131529406376837 / 1125899906842624"
    using fl_eq_down[of "1 + (5764607523034235 / 1152921504606846976)" 52 "4526117625507348"] by (simp add: fadd_def)
  have e4: "powRef (1131529406376837 / 1125899906842624) (Suc 0) = 1131529406376837 / 1125899906842624"
    using fl_eq_down[of "(1131529406376837 / 1125899906842624) ^ 1" 52 "4526117625507348"] by (simp add: powRef_def power_divide)
  have e5: "fmul 1 (1131529406376837 / 1125899906842624) = 1131529406376837 / 1125899906842624"
    using fl_eq_down[of "1 * (1131529406376837 / 1125899906842624)" 52 "4526117625507348"] by (simp add: fmul_def)
  have e6: "fmul (1131529406376837 / 1125899906842624) 100 = 7072058789855231 / 70368744177664"
    using fl_eq_down[of "(1131529406376837 / 1125899906842624) * 100" 46 "7072058789855231"] by (simp add: fmul_def)
  have e7: "Math_round (7072058789855231 / 70368744177664) = 100"
    by (rule Math_round_eqI) simp_all
  have e8: "fdiv 100 100 = 1"
    using fl_eq_down[of "100 / 100" 52 "4503599627370496"] by (simp add: fdiv_def)
  have e9: "r2 (1131529406376837 / 1125899906842624) = 1"
    by (simp add: r2_def e6 e7 e8)
  have f1: "fl (43 / 10) = 4841369599423283 / 1125899906842624"
    using fl_eq_down[of "43 / 10" 50 "4841369599423283"] by simp
  have f2: "fdiv 5 100 = 3602879701896397 / 72057594037927936"
    using fl_eq_down[of "5 / 100" 57 "7205759403792794"] by (simp add: fdiv_def)
  have f3: "fadd 1 (3602879701896397 / 72057594037927936) = 4728779608739021 / 4503599627370496"
    using fl_eq_down[of "1 + (3602879701896397 / 72057594037927936)" 52 "4728779608739021"] by (simp add: fadd_def)
  have f4: "powRef (4728779608739021 / 4503599627370496) (Suc 0) = 4728779608739021 / 4503599627370496"
    using fl_eq_down[of "(4728779608739021 / 4503599627370496) ^ 1" 52 "4728779608739021"] by (simp add: powRef_def power_divide)
  have f5: "fmul (4841369599423283 / 1125899906842624) (4728779608739021 / 4503599627370496) = 5083438079394447 / 1125899906842624"
    using fl_eq_down[of "(4841369599423283 / 1125899906842624) * (4728779608739021 / 4503599627370496)" 50 "5083438079394447"] by (simp add: fmul_def)
  have f6: "fmul (5083438079394447 / 1125899906842624) 100 = 7942871999053823 / 17592186044416"
    using fl_eq_down[of "(5083438079394447 / 1125899906842624) * 100" 44 "7942871999053823"] by (simp add: fmul_def)
  have f7: "Math_round (7942871999053823 / 17592186044416) = 451"
    by (rule Math_round_eqI) simp_all
  have f8: "fdiv 451 100 = 2538904289930117 / 562949953421312"
    using fl_eq_down[of "451 / 100" 50 "5077808579860234"] by (simp add: fdiv_def)
  have f9: "r2 (5083438079394447 / 1125899906842624) = 2538904289930117 / 562949953421312"
    by (simp add: r2_def f6 f7 f8)
  have f10: "fdiv 75 100 = 3 / 4"
    using fl_eq_down[of "75 / 100" 53 "6755399441055744"] by (simp add: fdiv_def)
  have f11: "fdiv (3 / 4) 12 = 1 / 16"
    using fl_eq_down[of "(3 / 4) / 12" 56 "4503599627370496"] by (simp add: fdiv_def)
  have f12: "fadd 1 (1 / 16) = 17 / 16"
    using fl_eq_down[of "1 + (1 / 16)" 52 "4785074604081152"] by (simp add: fadd_def)
  have f13: "powRef (17 / 16) 12 = 582622237229761 / 281474976710656"
    using fl_eq_down[of "(17 / 16) ^ 12" 51 "4660977897838088"] by (simp add: powRef_def power_divide)
  have f14: "fmul (2538904289930117 / 562949953421312) (582622237229761 / 281474976710656) = 1313813144953111 / 140737488355328"
    using fl_eq_down[of "(2538904289930117 / 562949953421312) * (582622237229761 / 281474976710656)" 49 "5255252579812444"] by (simp add: fmul_def)
  have g1: "fadd 0 1 = 1"
    using fl_eq_down[of "0 + 1" 52 "4503599627370496"] by (simp add: fadd_def)
  have g2: "fmul 1 100 = 100"
    using fl_eq_down[of "1 * 100" 46 "7036874417766400"] by (simp add: fmul_def)
  have g3: "Math_round 100 = 100"
    by (rule Math_round_eqI) simp_all
  have g4: "fdiv 100 100 = 1"
    using fl_eq_down[of "100 / 100" 52 "4503599627370496"] by (simp add: fdiv_def)
  have g5: "r2 1 = 1"
    by (simp add: r2_def g2 g3 g4)
  have g6: "fdiv 0 100 = 0" by (simp add: fdiv_def fl_zero)
  have g7: "fmul 1 0 = 0" by (simp add: fmul_def fl_zero)
  have g8: "fmul 0 100 = 0" by (simp add: fmul_def fl_zero)
  have g9: "Math_round 0 = 0"
    by (rule Math_round_eqI) simp_all
  have g10: "r2 0 = 0"
    by (simp add: r2_def g8 g9 g6)
  have g11: "fsub 1 0 = 1"
    using fl_eq_down[of "1 - 0" 52 "4503599627370496"] by (simp add: fsub_def)
  have g12: "fadd 0 (1313813144953111 / 140737488355328) = 1313813144953111 / 140737488355328"
    using fl_eq_down[of "0 + (1313813144953111 / 140737488355328)" 49 "5255252579812444"] by (simp add: fadd_def)
  have g13: "fmul (1313813144953111 / 140737488355328) 100 = 513208259747309 / 549755813888"
    using fl_eq_down[of "(1313813144953111 / 140737488355328) * 100" 43 "8211332155956944"] by (simp add: fmul_def)
  have g14: "Math_round (513208259747309 / 549755813888) = 934"
    by (rule Math_round_eqI) simp_all
  have g15: "fdiv 934 100 = 2628976282477527 / 281474976710656"
    using fl_eq_down[of "934 / 100" 49 "5257952564955054"] by (simp add: fdiv_def)
  have g16: "r2 (1313813144953111 / 140737488355328) = 2628976282477527 / 281474976710656"
    by (simp add: r2_def g13 g14 g15)
  have g17: "cents 934 = 2628976282477527 / 281474976710656"
    using fl_eq_down[of "934 / 100" 49 "5257952564955054"] by (simp add: cents_def fdiv_def)
  have ic: "incomeContribution powRef (hd (incomes growthScenario)) 12 = 1"
    by (simp add: growthScenario_def incomeContribution_def incomeActive_def yearlyAmount_def
        e1 e2 e3 e4 e5 e6 e7 e8 e9)
  have ec: "expenseContribution powRef growthScenario (hd (expenses growthScenario)) 12 = 1313813144953111 / 140737488355328"
    by (simp add: growthScenario_def expenseContribution_def expenseActive_def yearlyAmount_def
        inflationRateOf_def f1 f2 f3 f4 f5 f6 f7 f8 f9 f10 f11 f12 f13 f14)
  have t: "taxRateOf growthScenario = 0" by (simp add: growthScenario_def taxRateOf_def)
  have i: "incomes growthScenario = [hd (incomes growthScenario)]"
    and e: "expenses growthScenario = [hd (expenses growthScenario)]"
    by (simp_all add: growthScenario_def)
  have "(12::nat) < 2 ^ 50" by simp
  from expense_and_income_schedule[OF r len this]
  have "totalExpenses (snapshots r ! 12) =
          r2 (foldl (\<lambda>s ex. fadd s (expenseContribution powRef growthScenario ex 12)) 0
                [hd (expenses growthScenario)])"
    and "totalIncome (snapshots r ! 12) =
           r2 (fsub (r2 (foldl (\<lambda>s i. fadd s (incomeContribution powRef i 12)) 0
                           [hd (incomes growthScenario)]))
                 (r2 (fmul (r2 (foldl (\<lambda>s i. fadd s (incomeContribution powRef i 12)) 0
                                  [hd (incomes growthScenario)]))
                        (fdiv (taxRateOf growthScenario) 100))))"
    using i e by simp_all
  then have "totalExpenses (snapshots r ! 12) = cents 934"
    and "totalIncome (snapshots r ! 12) = 1"
    by (simp_all add: ic ec t g1 g2 g3 g4 g5 g6 g7 g8 g9 g10 g11 g12 g13 g14 g15 g16 g17)
  with r show ?thesis by blast
qed

subsection \<open>Two one-month forecasts\<close>

lemmas int_arith =
  fadd_def fsub_def fmul_def fdiv_def powRef_def fl_zero fl_one fl_numeral fl_neg_numeral
  r2_zero r2_numeral r2_neg_numeral Math_floor_def

lemma stableScenario_month0:
  "netIncome powRef stableScenario 0 = 20000" "expensesTotal powRef stableScenario 0 = 10000"
  "oneTimeNet stableScenario 0 = 0" "taxThisMonth powRef stableScenario 0 = 0"
  by (simp_all add: stableScenario_def baseScenario_def netIncome_def taxThisMonth_def
      grossIncome_def monthlyIncome_def expensesTotal_def monthlyExpense_def
      inflationMultiplier_def monthlyInflation_def inflationRateOf_def taxRateOf_def
      oneTimeNet_def oneTimeEventsOf_def int_arith)

lemma stableScenario_state:
  "stateAfter powRef stableScenario (Suc 0) =
     \<lparr>st_cash = 110000, st_debtStates = [], st_invValues = [],
      st_snapshots = snapshots stableForecast,
      st_totalInterestPaid = 0, st_totalTaxPaid = 0, st_negativeCashMonths = [],
      st_debtFreeMonth = None, st_minCash = 100000, st_minCashMonth = 0,
      st_goalAchievedMonth = []\<rparr>"
proof -
  have init: "initState stableScenario =
     \<lparr>st_cash = 100000, st_debtStates = [], st_invValues = [], st_snapshots = [],
      st_totalInterestPaid = 0, st_totalTaxPaid = 0, st_negativeCashMonths = [],
      st_debtFreeMonth = None, st_minCash = 100000, st_minCashMonth = 0,
      st_goalAchievedMonth = []\<rparr>"
    by (simp add: initState_def stableScenario_def baseScenario_def goalsOf_def)
  have sc: "investments stableScenario = []" "debts stableScenario = []"
    "goalsOf stableScenario = []"
    by (simp_all add: stableScenario_def baseScenario_def goalsOf_def)
  show ?thesis
    by (simp add: init monthStep_def preDebtCash_def stableScenario_month0 sc
        stableForecast_def int_arith)
qed

lemma stableForecast_computed: "computeForecast powRef stableScenario = Inr stableForecast"
proof -
  have "nat (months stableScenario) = Suc 0"
    by (simp add: stableScenario_def baseScenario_def)
  then have loop: "forecastLoop powRef stableScenario 0 (initState stableScenario) =
             stateAfter powRef stableScenario (Suc 0)"
    by (simp only: forecastLoop_init)
  have gs: "goalsOf stableScenario = []"
    by (simp add: stableScenario_def baseScenario_def goalsOf_def)
  show ?thesis
    unfolding computeForecast_def loop stableScenario_state gs
    by (simp add: stableForecast_def)
qed

lemma shortfallScenario_month0:
  "netIncome powRef shortfallScenario 0 = 20000"
  "expensesTotal powRef shortfallScenario 0 = 30000"
  "oneTimeNet shortfallScenario 0 = 0" "taxThisMonth powRef shortfallScenario 0 = 0"
  by (simp_all add: shortfallScenario_def baseScenario_def netIncome_def taxThisMonth_def
      grossIncome_def monthlyIncome_def expensesTotal_def monthlyExpense_def
      inflationMultiplier_def monthlyInflation_def inflationRateOf_def taxRateOf_def
      oneTimeNet_def oneTimeEventsOf_def int_arith)

lemma shortfallScenario_state:
  "stateAfter powRef shortfallScenario (Suc 0) =
     \<lparr>st_cash = - 10000, st_debtStates = [], st_invValues = [],
      st_snapshots = snapshots shortfallForecast,
      st_totalInterestPaid = 0, st_totalTaxPaid = 0, st_negativeCashMonths = [0],
      st_debtFreeMonth = None, st_minCash = - 10000, st_minCashMonth = 0,
      st_goalAchievedMonth = []\<rparr>"
proof -
  have init: "initState shortfallScenario =
     \<lparr>st_cash = 0, st_debtStates = [], st_invValues = [], st_snapshots = [],
      st_totalInterestPaid = 0, st_totalTaxPaid = 0, st_negativeCashMonths = [],
      st_debtFreeMonth = None, st_minCash = 0, st_minCashMonth = 0,
      st_goalAchievedMonth = []\<rparr>"
    by (simp add: initState_def shortfallScenario_def baseScenario_def goalsOf_def)
  have sc: "investments shortfallScenario = []" "debts shortfallScenario = []"
    "goalsOf shortfallScenario = []"
    by (simp_all add: shortfallScenario_def baseScenario_def goalsOf_def)
  show ?thesis
    by (simp add: init monthStep_def preDebtCash_def shortfallScenario_month0 sc
        shortfallForecast_def int_arith)
qed

lemma shortfallForecast_computed:
  "computeForecast powRef shortfallScenario = Inr shortfallForecast"
proof -
  have "nat (months shortfallScenario) = Suc 0"
    by (simp add: shortfallScenario_def baseScenario_def)
  then have loop: "forecastLoop powRef shortfallScenario 0 (initState shortfallScenario) =
             stateAfter powRef shortfallScenario (Suc 0)"
    by (simp only: forecastLoop_init)
  have gs: "goalsOf shortfallScenario = []"
    by (simp add: shortfallScenario_def baseScenario_def goalsOf_def)
  show ?thesis
    unfolding computeForecast_def loop shortfallScenario_state gs
    by (simp add: shortfallForecast_def)
qed

subsection \<open>Every amount is a whole number of cents\<close>





















subsection \<open>Arithmetic on whole cents\<close>

lemma cents_value_bound:
  assumes "\<bar>n\<bar> \<le> 2 ^ 39"
  shows "\<bar>of_int n / 100 :: rat\<bar> \<le> 2 ^ 33"
proof -
  have "(of_int \<bar>n\<bar> :: rat) \<le> of_int (2 ^ 39)" using assms by (simp only: of_int_le_iff)
  then have "\<bar>of_int n :: rat\<bar> \<le> 2 ^ 39" by simp
  then show ?thesis by simp
qed

lemma near_fl_cents:
  assumes "near k x (of_int n / 100)" and "\<bar>n\<bar> \<le> 2 ^ 39" and "k \<le> 2 ^ 11"
  shows "near (Suc k) (fl x) (of_int n / 100)"
proof -
  from assms(3) have "k \<le> 2 ^ 19" by simp
  from near_fl[OF assms(1) cents_value_bound[OF assms(2)] this] show ?thesis .
qed

lemma near_fadd_cents:
  assumes "near j x (of_int a / 100)" and "near k y (of_int b / 100)"
    and "\<bar>a + b\<bar> \<le> 2 ^ 39" and "j + k \<le> 2 ^ 11"
  shows "near (Suc (j + k)) (fadd x y) (of_int (a + b) / 100)"
proof -
  have v: "(of_int (a + b) / 100 :: rat) = of_int a / 100 + of_int b / 100"
    by (simp add: add_divide_distrib)
  from assms(4) have "j + k \<le> 2 ^ 19" by simp
  moreover from cents_value_bound[OF assms(3)] have "\<bar>of_int a / 100 + of_int b / 100 :: rat\<bar> \<le> 2 ^ 33"
    by (simp only: v)
  ultimately show ?thesis
    unfolding v using assms(1,2) by (intro near_fadd)
qed

lemma near_fsub_cents:
  assumes "near j x (of_int a / 100)" and "near k y (of_int b / 100)"
    and "\<bar>a - b\<bar> \<le> 2 ^ 39" and "j + k \<le> 2 ^ 11"
  shows "near (Suc (j + k)) (fsub x y) (of_int (a - b) / 100)"
proof -
  have v: "(of_int (a - b) / 100 :: rat) = of_int a / 100 - of_int b / 100"
    by (simp add: diff_divide_distrib)
  from assms(4) have "j + k \<le> 2 ^ 19" by simp
  moreover from cents_value_bound[OF assms(3)] have "\<bar>of_int a / 100 - of_int b / 100 :: rat\<bar> \<le> 2 ^ 33"
    by (simp only: v)
  ultimately show ?thesis
    unfolding v using assms(1,2) by (intro near_fsub)
qed

lemma r2_fl_cents:
  assumes "\<bar>n\<bar> \<le> 2 ^ 39"
  shows "r2 (cents n) = cents n" and "r2 (fl (cents n)) = cents n"
    and "r2 (fl (fl (cents n))) = cents n"
proof -
  note n1 = near_cents[OF assms]
  have n2: "near (Suc 1) (fl (cents n)) (of_int n / 100)"
    by (rule near_fl_cents[OF n1 assms]) simp
  have n3: "near (Suc (Suc 1)) (fl (fl (cents n))) (of_int n / 100)"
    by (rule near_fl_cents[OF n2 assms]) simp
  show "r2 (cents n) = cents n" by (rule near_r2[OF n1 _ assms]) simp
  show "r2 (fl (cents n)) = cents n" by (rule near_r2[OF n2 _ assms]) simp
  show "r2 (fl (fl (cents n))) = cents n" by (rule near_r2[OF n3 _ assms]) simp
qed

text \<open>
  One month of cash flow on whole cents: opening cash plus income less expenses plus
  one-time events, rounded, less debt payments less contributions, rounded.
\<close>

lemma month_cash_cents:
  assumes b: "\<bar>c\<bar> \<le> 2 ^ 39" "\<bar>a\<bar> \<le> 2 ^ 39" "\<bar>e\<bar> \<le> 2 ^ 39" "\<bar>t\<bar> \<le> 2 ^ 39"
      "\<bar>p\<bar> \<le> 2 ^ 39" "\<bar>q\<bar> \<le> 2 ^ 39"
    and s: "\<bar>c + a\<bar> \<le> 2 ^ 39" "\<bar>c + a - e\<bar> \<le> 2 ^ 39" "\<bar>c + a - e + t\<bar> \<le> 2 ^ 39"
      "\<bar>c + a - e + t - p\<bar> \<le> 2 ^ 39" "\<bar>c + a - e + t - p - q\<bar> \<le> 2 ^ 39"
  shows "r2 (fadd (fsub (fadd (cents c) (cents a)) (cents e)) (cents t)) = cents (c + a - e + t)"
    and "r2 (fsub (fsub (r2 (fadd (fsub (fadd (cents c) (cents a)) (cents e)) (cents t)))
                    (cents p)) (cents q)) = cents (c + a - e + t - p - q)"
proof -
  have 1: "near (Suc (1 + 1)) (fadd (cents c) (cents a)) (of_int (c + a) / 100)"
    by (rule near_fadd_cents[OF near_cents[OF b(1)] near_cents[OF b(2)] s(1)]) simp
  have 2: "near (Suc (Suc (1 + 1) + 1)) (fsub (fadd (cents c) (cents a)) (cents e))
             (of_int (c + a - e) / 100)"
    by (rule near_fsub_cents[OF 1 near_cents[OF b(3)] s(2)]) simp
  have 3: "near (Suc (Suc (Suc (1 + 1) + 1) + 1))
             (fadd (fsub (fadd (cents c) (cents a)) (cents e)) (cents t))
             (of_int (c + a - e + t) / 100)"
    by (rule near_fadd_cents[OF 2 near_cents[OF b(4)] s(3)]) simp
  show pdc: "r2 (fadd (fsub (fadd (cents c) (cents a)) (cents e)) (cents t))
               = cents (c + a - e + t)"
    by (rule near_r2[OF 3 _ s(3)]) simp
  have 4: "near (Suc (1 + 1)) (fsub (cents (c + a - e + t)) (cents p))
             (of_int (c + a - e + t - p) / 100)"
    by (rule near_fsub_cents[OF near_cents[OF s(3)] near_cents[OF b(5)] s(4)]) simp
  have 5: "near (Suc (Suc (1 + 1) + 1)) (fsub (fsub (cents (c + a - e + t)) (cents p)) (cents q))
             (of_int (c + a - e + t - p - q) / 100)"
    by (rule near_fsub_cents[OF 4 near_cents[OF b(6)] s(5)]) simp
  show "r2 (fsub (fsub (r2 (fadd (fsub (fadd (cents c) (cents a)) (cents e)) (cents t)))
                    (cents p)) (cents q)) = cents (c + a - e + t - p - q)"
    unfolding pdc by (rule near_r2[OF 5 _ s(5)]) simp
qed

subsection \<open>Constant income and expense\<close>

lemma length_debtLoop: "length (fst (debtLoop x ds tp ti)) = length ds"
  by (induction ds arbitrary: tp ti) (simp_all add: Let_def case_prod_beta)

lemma length_debtStates_stateAfter:
  "length (st_debtStates (stateAfter pw sc n)) = length (debts sc)"
  by (induction n) (simp_all add: initState_def monthStep_debtStates length_debtLoop)

lemma powRef_one: "powRef 1 n = 1"
  by (simp add: powRef_def fl_one)

lemma flat_month:
  assumes flat: "flatScenario sc inc ex" and m: "int m < months sc"
    and pw1: "\<forall>n. pw 1 n = 1"
    and ri: "r2 (fl (inc_amount inc)) = cents i" and bi: "\<bar>i\<bar> \<le> 2 ^ 39"
    and re: "r2 (fl (exp_amount ex)) = cents e" and be: "\<bar>e\<bar> \<le> 2 ^ 39"
  shows "netIncome pw sc m = cents i"
    and "expensesTotal pw sc m = cents e"
    and "oneTimeNet sc m = 0"
proof -
  have one: "fadd 1 (fdiv 0 100) = 1" "fadd 1 (fdiv (fdiv 0 100) 12) = 1"
    by (simp_all add: fdiv_0_left fadd_0_right fl_one)
  from flat m have "monthlyIncome pw inc m = r2 (fl (inc_amount inc))"
    by (auto simp: flatScenario_def monthlyIncome_def Let_def one pw1 fmul_1_right
        split: option.splits)
  with flat have gross: "grossIncome pw sc m = cents i"
    by (simp add: flatScenario_def grossIncome_def ri fadd_0_left r2_fl_cents[OF bi])
  from flat have tax: "taxThisMonth pw sc m = 0"
    by (simp add: flatScenario_def taxThisMonth_def fdiv_0_left fmul_0_right r2_zero)
  show "netIncome pw sc m = cents i"
    by (simp add: netIncome_def gross tax fsub_0_right r2_fl_cents[OF bi])
  from flat m have "monthlyExpense pw ex m = r2 (fl (exp_amount ex))"
    by (auto simp: flatScenario_def monthlyExpense_def Let_def one pw1 fmul_1_right
        split: option.splits)
  with flat show "expensesTotal pw sc m = cents e"
    by (simp add: flatScenario_def expensesTotal_def inflationMultiplier_def
        monthlyInflation_def one pw1 re fmul_1_right fadd_0_left r2_fl_cents[OF be])
  from flat show "oneTimeNet sc m = 0"
    by (simp add: flatScenario_def oneTimeNet_def r2_zero)
qed

lemma flat_cash_step:
  assumes flat: "flatScenario sc inc ex" and m: "int m < months sc"
    and pw1: "\<forall>n. pw 1 n = 1"
    and ri: "r2 (fl (inc_amount inc)) = cents i" and bi: "\<bar>i\<bar> \<le> 2 ^ 39"
    and re: "r2 (fl (exp_amount ex)) = cents e" and be: "\<bar>e\<bar> \<le> 2 ^ 39"
  shows "st_cash (stateAfter pw sc (Suc m)) =
         r2 (fsub (fsub (r2 (fadd (fsub (fadd (st_cash (stateAfter pw sc m)) (cents i))
                                    (cents e)) (cents 0))) (cents 0)) (cents 0))"
proof -
  from flat have "length (st_debtStates (stateAfter pw sc m)) = 0"
    by (simp add: length_debtStates_stateAfter flatScenario_def)
  then have ds: "st_debtStates (stateAfter pw sc m) = []" by simp
  from flat have inv: "investments sc = []" by (simp add: flatScenario_def)
  show ?thesis
    by (simp add: monthStep_cash ds inv preDebtCash_def cents_zero
        flat_month[where pw = pw, OF flat m pw1 ri bi re be])
qed

lemma flat_bounds:
  fixes c0 i e j M B :: int
  assumes "0 \<le> j" and "j < M" and "\<bar>c0\<bar> + M * (\<bar>i\<bar> + \<bar>e\<bar>) \<le> B"
  shows "\<bar>c0 + j * (i - e)\<bar> \<le> B" and "\<bar>c0 + j * (i - e) + i\<bar> \<le> B"
    and "\<bar>c0 + j * (i - e) + i - e\<bar> \<le> B" and "\<bar>i\<bar> \<le> B" and "\<bar>e\<bar> \<le> B"
    and "\<bar>(j + 1) * (i - e)\<bar> \<le> B" and "\<bar>i - e\<bar> \<le> B" and "\<bar>c0\<bar> \<le> B"
proof -
  define X where "X = \<bar>i\<bar> + \<bar>e\<bar>"
  have X: "0 \<le> X" "\<bar>i - e\<bar> \<le> X" "\<bar>i\<bar> \<le> X" "\<bar>e\<bar> \<le> X" by (simp_all add: X_def)
  have "\<bar>j * (i - e)\<bar> = j * \<bar>i - e\<bar>" using assms(1) by (simp add: abs_mult)
  also have "\<dots> \<le> j * X" using assms(1) X(2) by (rule mult_left_mono[rotated])
  finally have t: "\<bar>j * (i - e)\<bar> \<le> j * X" .
  from assms(2) have "j + 1 \<le> M" by simp
  then have "(j + 1) * X \<le> M * X" using X(1) by (rule mult_right_mono)
  then have u: "j * X + X \<le> M * X" by (simp add: algebra_simps)
  from assms(3) have B: "\<bar>c0\<bar> + M * X \<le> B" by (simp add: X_def)
  from assms(1) have jX: "0 \<le> j * X" using X(1) by simp
  show "\<bar>c0 + j * (i - e)\<bar> \<le> B" using t u B X by linarith
  show "\<bar>c0 + j * (i - e) + i\<bar> \<le> B" using t u B X by linarith
  show "\<bar>c0 + j * (i - e) + i - e\<bar> \<le> B" using t u B X by linarith
  show "\<bar>i\<bar> \<le> B" using u B X jX by linarith
  show "\<bar>e\<bar> \<le> B" using u B X jX by linarith
  show "\<bar>i - e\<bar> \<le> B" using u B X jX by linarith
  show "\<bar>c0\<bar> \<le> B" using u B X jX by linarith
  have "(j + 1) * (i - e) = j * (i - e) + (i - e)" by (simp add: algebra_simps)
  then show "\<bar>(j + 1) * (i - e)\<bar> \<le> B" using t u B X by linarith
qed

lemma flat_cash_closed_form:
  assumes flat: "flatScenario sc inc ex" and pw1: "\<forall>n. pw 1 n = 1"
    and ri: "r2 (fl (inc_amount inc)) = cents i" and re: "r2 (fl (exp_amount ex)) = cents e"
    and c0: "initialCash sc = cents c0"
    and bound: "\<bar>c0\<bar> + months sc * (\<bar>i\<bar> + \<bar>e\<bar>) \<le> 2 ^ 39"
  shows "int k < months sc \<Longrightarrow>
         st_cash (stateAfter pw sc (Suc k)) = cents (c0 + (int k + 1) * (i - e))"
proof (induction k)
  case 0
  have z: "(0::int) \<le> 0" by simp
  from 0 have z': "(0::int) < months sc" by simp
  note b = flat_bounds[OF z z' bound]
  have zero: "\<bar>0 :: int\<bar> \<le> 2 ^ 39" by simp
  have "st_cash (stateAfter pw sc (Suc 0)) =
        r2 (fsub (fsub (r2 (fadd (fsub (fadd (cents c0) (cents i)) (cents e)) (cents 0)))
                    (cents 0)) (cents 0))"
    using flat_cash_step[where pw = pw, OF flat 0 pw1 ri b(4) re b(5)]
    by (simp add: initState_def c0)
  also have "\<dots> = cents (c0 + i - e + 0 - 0 - 0)"
    using b by (intro month_cash_cents(2)) simp_all
  also have "c0 + i - e + 0 - 0 - 0 = c0 + (int 0 + 1) * (i - e)" by simp
  finally show ?case .
next
  case (Suc k)
  from Suc.prems have k: "int k < months sc" by simp
  have j: "(0::int) \<le> int k + 1" "int k + 1 < months sc" using Suc.prems by simp_all
  note b = flat_bounds[OF j bound]
  define c where "c = c0 + (int k + 1) * (i - e)"
  have IH: "st_cash (stateAfter pw sc (Suc k)) = cents c"
    unfolding c_def by (rule Suc.IH[OF k])
  have "st_cash (stateAfter pw sc (Suc (Suc k))) =
        r2 (fsub (fsub (r2 (fadd (fsub (fadd (cents c) (cents i)) (cents e)) (cents 0)))
                    (cents 0)) (cents 0))"
    using flat_cash_step[where pw = pw, OF flat Suc.prems pw1 ri b(4) re b(5)]
    by (simp only: IH)
  also have "\<dots> = cents (c + i - e + 0 - 0 - 0)"
    using b unfolding c_def[symmetric] by (intro month_cash_cents(2)) simp_all
  also have "c + i - e + 0 - 0 - 0 = c0 + (int (Suc k) + 1) * (i - e)"
    by (simp add: c_def algebra_simps)
  finally show ?case .
qed

lemma flat_snapshot_cash:
  assumes flat: "flatScenario sc inc ex" and pw1: "\<forall>n. pw 1 n = 1"
    and ri: "r2 (fl (inc_amount inc)) = cents i" and re: "r2 (fl (exp_amount ex)) = cents e"
    and c0: "initialCash sc = cents c0"
    and bound: "\<bar>c0\<bar> + months sc * (\<bar>i\<bar> + \<bar>e\<bar>) \<le> 2 ^ 39"
    and r: "computeForecast pw sc = Inr r" and k: "k < length (snapshots r)"
  shows "cash (snapshots r ! k) = cents (c0 + (int k + 1) * (i - e))"
proof -
  from k computeForecast_length[OF r] have "int k < months sc" by simp
  from flat_cash_closed_form[where pw = pw, OF flat pw1 ri re c0 bound this]
    computeForecast_nth[OF r k]
  show ?thesis by (simp add: monthStep_last_fields)
qed

lemma flat_returns:
  assumes "flatScenario sc inc ex" and "1 \<le> months sc"
  shows "\<exists>r. computeForecast pw sc = Inr r"
proof -
  from assms(1) have "\<forall>g\<in>set (goalsOf sc). 0 \<le> targetMonth g"
    by (simp add: flatScenario_def)
  with assms(2) show ?thesis by (rule computeForecast_returns)
qed

lemma baseScenario_flat:
  "flatScenario baseScenario (hd (incomes baseScenario)) (hd (expenses baseScenario))"
  by (simp add: flatScenario_def baseScenario_def taxRateOf_def inflationRateOf_def
      oneTimeEventsOf_def goalsOf_def)






subsection \<open>The running minimum of cash\<close>

lemma monthStep_minCash:
  "st_minCash (monthStep pw sc m st) = min (st_cash (monthStep pw sc m st)) (st_minCash st)"
  "st_minCashMonth (monthStep pw sc m st) =
     (if st_cash (monthStep pw sc m st) < st_minCash st then m else st_minCashMonth st)"
  by (simp_all add: monthStep_def Let_def case_prod_beta min_def)

lemma cash_set_stateAfter_Suc:
  "cash ` set (st_snapshots (stateAfter pw sc (Suc n))) =
     insert (st_cash (stateAfter pw sc (Suc n))) (cash ` set (st_snapshots (stateAfter pw sc n)))"
proof -
  define old where "old = st_snapshots (stateAfter pw sc n)"
  define new where "new = st_snapshots (stateAfter pw sc (Suc n))"
  have new: "new = old @ [last new]"
    unfolding old_def new_def by (rule snapshots_stateAfter_Suc)
  have lastc: "cash (last new) = st_cash (stateAfter pw sc (Suc n))"
    unfolding new_def by (simp add: monthStep_last_fields)
  have "set new = insert (last new) (set old)"
    by (subst new) simp
  then have "cash ` set new = insert (cash (last new)) (cash ` set old)"
    by simp
  then show ?thesis unfolding lastc unfolding old_def new_def .
qed

lemma minCash_stateAfter:
  "st_minCash (stateAfter pw sc n) =
     Min (insert (initialCash sc) (cash ` set (st_snapshots (stateAfter pw sc n))))"
proof (induction n)
  case 0
  show ?case by (simp add: initState_def)
next
  case (Suc n)
  define S where "S = insert (initialCash sc) (cash ` set (st_snapshots (stateAfter pw sc n)))"
  define c where "c = st_cash (stateAfter pw sc (Suc n))"
  have fin: "finite S" "S \<noteq> {}" unfolding S_def by simp_all
  have "insert (initialCash sc) (cash ` set (st_snapshots (stateAfter pw sc (Suc n)))) = insert c S"
    unfolding cash_set_stateAfter_Suc S_def c_def by (rule insert_commute)
  then have "Min (insert (initialCash sc) (cash ` set (st_snapshots (stateAfter pw sc (Suc n))))) =
        min c (Min S)"
    using Min_insert[OF fin, of c] by simp
  moreover have "st_minCash (stateAfter pw sc (Suc n)) = min c (st_minCash (stateAfter pw sc n))"
    unfolding c_def by (simp add: monthStep_minCash)
  ultimately show ?case using Suc.IH unfolding S_def by simp
qed

lemma minCashMonth_stateAfter:
  "(\<forall>s\<in>set (st_snapshots (stateAfter pw sc n)). initialCash sc \<le> cash s) \<Longrightarrow>
   st_minCash (stateAfter pw sc n) = initialCash sc \<and> st_minCashMonth (stateAfter pw sc n) = 0"
proof (induction n)
  case 0
  show ?case by (simp add: initState_def)
next
  case (Suc n)
  from Suc.prems have all: "\<forall>x\<in>cash ` set (st_snapshots (stateAfter pw sc (Suc n))). initialCash sc \<le> x"
    by blast
  then have "\<forall>x\<in>cash ` set (st_snapshots (stateAfter pw sc n)). initialCash sc \<le> x"
    unfolding cash_set_stateAfter_Suc by blast
  then have "\<forall>s\<in>set (st_snapshots (stateAfter pw sc n)). initialCash sc \<le> cash s"
    by blast
  from Suc.IH[OF this] have IH: "st_minCash (stateAfter pw sc n) = initialCash sc"
    "st_minCashMonth (stateAfter pw sc n) = 0" by simp_all
  from all have "initialCash sc \<le> st_cash (stateAfter pw sc (Suc n))"
    unfolding cash_set_stateAfter_Suc by blast
  then have "initialCash sc \<le> st_cash (monthStep pw sc n (stateAfter pw sc n))" by simp
  with IH show ?case by (simp add: monthStep_minCash)
qed

text \<open>
  C10. \<^verbatim>\<open>summary.minCash\<close> is the minimum of \<^verbatim>\<open>initialCash\<close> and the closing cash
  of all snapshots. If no month closes below \<^verbatim>\<open>initialCash\<close>, \<^verbatim>\<open>minCash\<close> is
  \<^verbatim>\<open>initialCash\<close> and \<^verbatim>\<open>minCashMonth\<close> is 0, whatever \<^verbatim>\<open>snapshots[0].cash\<close> is.
\<close>

theorem minCash_includes_initialCash:
  assumes "computeForecast pw sc = Inr r"
  shows "minCash (summary r) = Min (insert (initialCash sc) (cash ` set (snapshots r)))
       \<and> ((\<forall>s\<in>set (snapshots r). initialCash sc \<le> cash s)
            \<longrightarrow> minCash (summary r) = initialCash sc \<and> minCashMonth (summary r) = 0)"
  using computeForecast_Inr(1,3,4)[OF assms] minCash_stateAfter[of pw sc "nat (months sc)"]
    minCashMonth_stateAfter[of pw sc "nat (months sc)"]
  by simp

theorem minCash_includes_initialCash_witness:
  "\<exists>r. computeForecast powRef baseScenario = Inr r \<and> minCash (summary r) = 100000
       \<and> minCashMonth (summary r) = 0 \<and> cash (snapshots r ! 0) = 110000"
proof -
  have "1 \<le> months baseScenario" by (simp add: baseScenario_def)
  from flat_returns[OF baseScenario_flat this] obtain r where
    r: "computeForecast powRef baseScenario = Inr r"
    by blast
  have pw1: "\<forall>n. powRef 1 n = 1" by (simp add: powRef_one)
  have c0: "initialCash baseScenario = cents (100000 * 100)"
    using cents_hundred[of 100000] by (simp add: baseScenario_def)
  have ri: "r2 (fl (inc_amount (hd (incomes baseScenario)))) = cents (20000 * 100)"
    using cents_hundred[of 20000] by (simp add: baseScenario_def int_arith)
  have re: "r2 (fl (exp_amount (hd (expenses baseScenario)))) = cents (10000 * 100)"
    using cents_hundred[of 10000] by (simp add: baseScenario_def int_arith)
  have bound: "\<bar>100000 * 100\<bar> + months baseScenario * (\<bar>20000 * 100\<bar> + \<bar>10000 * 100\<bar>)
                 \<le> (2 ^ 39 :: int)"
    by (simp add: baseScenario_def)
  from computeForecast_length[OF r] have len: "length (snapshots r) = 60"
    by (simp add: baseScenario_def)
  have c: "cash (snapshots r ! k) = of_int (110000 + int k * 10000)"
    if k: "k < length (snapshots r)" for k
  proof -
    have "cash (snapshots r ! k) =
            cents (100000 * 100 + (int k + 1) * (20000 * 100 - 10000 * 100))"
      using baseScenario_flat pw1 ri re c0 bound r k by (rule flat_snapshot_cash)
    also have "100000 * 100 + (int k + 1) * (20000 * 100 - 10000 * 100)
               = (110000 + int k * 10000) * 100"
      by (simp add: algebra_simps)
    also have "cents ((110000 + int k * 10000) * 100) = of_int (110000 + int k * 10000)"
      using k len by (intro cents_hundred) simp
    finally show ?thesis .
  qed
  have "\<forall>s\<in>set (snapshots r). initialCash baseScenario \<le> cash s"
  proof
    fix s assume "s \<in> set (snapshots r)"
    then obtain k where "k < length (snapshots r)" "s = snapshots r ! k"
      by (auto simp: in_set_conv_nth)
    with c show "initialCash baseScenario \<le> cash s" by (simp add: baseScenario_def)
  qed
  with minCash_includes_initialCash[OF r]
  have "minCash (summary r) = initialCash baseScenario" "minCashMonth (summary r) = 0"
    by simp_all
  moreover from c[of 0] len have "cash (snapshots r ! 0) = 110000" by simp
  ultimately show ?thesis using r by (simp add: baseScenario_def)
qed

subsection \<open>Months with negative closing cash\<close>

lemma monthStep_negativeCashMonths:
  "st_negativeCashMonths (monthStep pw sc m st) =
     (if st_cash (monthStep pw sc m st) < 0 then st_negativeCashMonths st @ [m]
      else st_negativeCashMonths st)"
  by (simp add: monthStep_def Let_def case_prod_beta)

lemma negativeCashMonths_stateAfter:
  "st_negativeCashMonths (stateAfter pw sc n) =
     filter (\<lambda>k. cash (st_snapshots (stateAfter pw sc n) ! k) < 0) [0..<n]"
proof (induction n)
  case 0
  show ?case by (simp add: initState_def)
next
  case (Suc n)
  define old where "old = st_snapshots (stateAfter pw sc n)"
  define new where "new = st_snapshots (stateAfter pw sc (Suc n))"
  have new: "new = old @ [last new]"
    unfolding old_def new_def by (rule snapshots_stateAfter_Suc)
  have len: "length old = n"
    unfolding old_def by (rule length_snapshots_stateAfter)
  have old_nth: "new ! k = old ! k" if "k < n" for k
    using that len by (subst new) (simp add: nth_append)
  have new_nth: "new ! n = last new"
    using len by (subst new) (simp add: nth_append)
  have lastc: "cash (last new) = st_cash (stateAfter pw sc (Suc n))"
    unfolding new_def by (simp add: monthStep_last_fields)
  have "filter (\<lambda>k. cash (new ! k) < 0) [0..<n] = filter (\<lambda>k. cash (old ! k) < 0) [0..<n]"
    by (rule filter_cong) (simp_all add: old_nth)
  also have "\<dots> = st_negativeCashMonths (stateAfter pw sc n)"
    using Suc.IH unfolding old_def by simp
  finally have "filter (\<lambda>k. cash (new ! k) < 0) [0..<Suc n] =
        st_negativeCashMonths (stateAfter pw sc n)
        @ (if st_cash (stateAfter pw sc (Suc n)) < 0 then [n] else [])"
    using new_nth lastc by simp
  moreover have "st_negativeCashMonths (stateAfter pw sc (Suc n)) =
        st_negativeCashMonths (stateAfter pw sc n)
        @ (if st_cash (stateAfter pw sc (Suc n)) < 0 then [n] else [])"
    by (simp add: monthStep_negativeCashMonths)
  ultimately show ?case unfolding new_def by simp
qed











subsection \<open>Debt service\<close>

lemma debtLoop_states: "fst (debtLoop x ds tp ti) = map (applyDebtStep x) ds"
  by (induction ds arbitrary: tp ti) (simp_all add: Let_def case_prod_beta applyDebtStep_def)

lemma debtLoop_total:
  "fst (snd (debtLoop x ds tp ti)) = foldl (\<lambda>t d. r2 (fadd t (payment (stepDebt d x)))) tp ds"
  by (induction ds arbitrary: tp ti) (simp_all add: Let_def case_prod_beta)

lemma stepDebt_aggressive:
  "strategy d = Aggressive \<Longrightarrow>
   payment (stepDebt d x) = (if paidOff d \<or> balance d \<le> 0 then 0 else aggressivePayment d x)"
  by (simp add: stepDebt_def aggressivePayment_def Let_def)

lemma strategy_applyDebtStep: "strategy (applyDebtStep x d) = strategy d"
  by (simp add: applyDebtStep_def)

lemma strategies_stateAfter:
  "map strategy (st_debtStates (stateAfter pw sc n)) = map debt_strategy (debts sc)"
proof (induction n)
  case 0
  show ?case by (simp add: initState_def comp_def)
next
  case (Suc n)
  have "map strategy (st_debtStates (stateAfter pw sc (Suc n))) =
        map strategy (st_debtStates (stateAfter pw sc n))"
    by (simp add: monthStep_debtStates debtLoop_states comp_def strategy_applyDebtStep)
  with Suc.IH show ?case by simp
qed

lemma newBalance_nonneg: "0 \<le> newBalance (stepDebt d x)"
  by (simp add: stepDebt_def Let_def r2_nonneg)

lemma debtSound_applyDebtStep: "debtSound d \<Longrightarrow> debtSound (applyDebtStep x d)"
proof -
  assume d: "debtSound d"
  have nb: "0 \<le> newBalance (stepDebt d x)" by (rule newBalance_nonneg)
  have "paidOff d \<Longrightarrow> newBalance (stepDebt d x) = 0" by (simp add: stepDebt_def)
  with d nb show ?thesis
    by (auto simp: debtSound_def applyDebtStep_def)
qed

lemma debtSound_stateAfter:
  assumes "\<forall>d\<in>set (debts sc). 0 \<le> debt_balance d \<and> 0 \<le> debt_minPayment d"
  shows "\<forall>d\<in>set (st_debtStates (stateAfter pw sc n)). debtSound d"
proof (induction n)
  case 0
  from assms show ?case by (auto simp: initState_def debtSound_def)
next
  case (Suc n)
  then show ?case
    by (auto simp: monthStep_debtStates debtLoop_states debtSound_applyDebtStep)
qed

lemma aggressivePayment_settled:
  assumes "debtSound d" and "paidOff d \<or> balance d \<le> 0"
  shows "aggressivePayment d x = 0"
proof -
  from assms have b: "balance d = 0" and mp: "0 \<le> minPayment d"
    by (auto simp: debtSound_def split: if_splits)
  have "0 \<le> fadd (minPayment d) (max 0 (fmul x (fl (3 / 10))))"
    unfolding fadd_def using mp by (intro fl_nonneg) simp
  then have "min 0 (fadd (minPayment d) (max 0 (fmul x (fl (3 / 10))))) = 0"
    by (simp add: min_def)
  with b show ?thesis
    by (simp add: aggressivePayment_def fmul_0_left r2_zero fadd_0_left fl_zero)
qed

text \<open>
  C2 (as amended). In every simulated month \<open>m\<close> the debt loop steps the debts in input
  order, each against the same \<open>extraCash = max(0, preDebtCash)\<close> of that month, which
  no payment decrements: the new debt states are the old ones each stepped with it, and
  the month's \<^verbatim>\<open>totalDebtPayment\<close> is the running rounded sum of the payments so
  computed. An aggressive debt that is not paid off and has a positive balance pays
  \<open>min(balance + interest, minPayment + max(0, extraCash \<times> 0.3))\<close> rounded to two
  decimals; a debt that is paid off or whose balance is at most zero pays nothing. When
  no debt of the scenario has a negative balance or a negative minimum payment, the
  formula gives the payment of every aggressive debt in every month.
\<close>

theorem debt_service_shared_extraCash:
  assumes r: "computeForecast pw sc = Inr r" and m: "m < length (snapshots r)"
  shows "map strategy (st_debtStates (stateAfter pw sc m)) = map debt_strategy (debts sc)
       \<and> totalDebtPayment (snapshots r ! m) =
           foldl (\<lambda>t d. r2 (fadd t (payment (stepDebt d (extraCashAt pw sc m))))) 0
             (st_debtStates (stateAfter pw sc m))
       \<and> st_debtStates (stateAfter pw sc (Suc m)) =
           map (applyDebtStep (extraCashAt pw sc m)) (st_debtStates (stateAfter pw sc m))
       \<and> (\<forall>d\<in>set (st_debtStates (stateAfter pw sc m)). strategy d = Aggressive \<longrightarrow>
            payment (stepDebt d (extraCashAt pw sc m)) =
              (if paidOff d \<or> balance d \<le> 0 then 0
               else aggressivePayment d (extraCashAt pw sc m)))
       \<and> ((\<forall>d\<in>set (debts sc). 0 \<le> debt_balance d \<and> 0 \<le> debt_minPayment d) \<longrightarrow>
            (\<forall>d\<in>set (st_debtStates (stateAfter pw sc m)). strategy d = Aggressive \<longrightarrow>
               payment (stepDebt d (extraCashAt pw sc m)) =
                 aggressivePayment d (extraCashAt pw sc m)))"
proof (intro conjI impI ballI)
  show "map strategy (st_debtStates (stateAfter pw sc m)) = map debt_strategy (debts sc)"
    by (rule strategies_stateAfter)
  show "totalDebtPayment (snapshots r ! m) =
           foldl (\<lambda>t d. r2 (fadd t (payment (stepDebt d (extraCashAt pw sc m))))) 0
             (st_debtStates (stateAfter pw sc m))"
    using computeForecast_nth[OF r m]
    by (simp add: monthStep_last_fields debtLoop_total extraCashAt_def)
  show "st_debtStates (stateAfter pw sc (Suc m)) =
           map (applyDebtStep (extraCashAt pw sc m)) (st_debtStates (stateAfter pw sc m))"
    by (simp add: monthStep_debtStates debtLoop_states extraCashAt_def)
next
  fix d :: DebtState
  assume "d \<in> set (st_debtStates (stateAfter pw sc m))" and "strategy d = Aggressive"
  then show "payment (stepDebt d (extraCashAt pw sc m)) =
      (if paidOff d \<or> balance d \<le> 0 then 0 else aggressivePayment d (extraCashAt pw sc m))"
    by (intro stepDebt_aggressive)
next
  fix d :: DebtState
  assume valid: "\<forall>d\<in>set (debts sc). 0 \<le> debt_balance d \<and> 0 \<le> debt_minPayment d"
    and d: "d \<in> set (st_debtStates (stateAfter pw sc m))" and a: "strategy d = Aggressive"
  from debtSound_stateAfter[OF valid] d have "debtSound d" by blast
  then show "payment (stepDebt d (extraCashAt pw sc m)) = aggressivePayment d (extraCashAt pw sc m)"
    using stepDebt_aggressive[OF a, of "extraCashAt pw sc m"] aggressivePayment_settled[of d]
    by (cases "paidOff d \<or> balance d \<le> 0") simp_all
qed

lemma youngProfessional_extraCash: "extraCashAt powRef youngProfessional 0 = 10550"
proof -
  have "netIncome powRef youngProfessional 0 = 5000"
    by (simp add: youngProfessional_def netIncome_def taxThisMonth_def grossIncome_def
        monthlyIncome_def taxRateOf_def int_arith)
  moreover have "expensesTotal powRef youngProfessional 0 = 2450"
    by (simp add: youngProfessional_def expensesTotal_def monthlyExpense_def
        inflationMultiplier_def int_arith)
  moreover have "oneTimeNet youngProfessional 0 = 0"
    by (simp add: youngProfessional_def oneTimeNet_def oneTimeEventsOf_def r2_zero)
  moreover have "st_cash (stateAfter powRef youngProfessional 0) = 8000"
    by (simp add: youngProfessional_def initState_def)
  ultimately show ?thesis
    by (simp add: extraCashAt_def preDebtCash_def int_arith)
qed

theorem debt_service_shared_extraCash_witness:
  "\<exists>r. computeForecast powRef youngProfessional = Inr r
       \<and> totalDebtPayment (snapshots r ! 0) = cents 590646"
proof -
  have "1 \<le> months youngProfessional"
    "\<forall>g\<in>set (goalsOf youngProfessional). 0 \<le> targetMonth g"
    by (simp_all add: youngProfessional_def goalsOf_def)
  from computeForecast_returns[OF this] obtain r where
    r: "computeForecast powRef youngProfessional = Inr r" by blast
  from computeForecast_length[OF r] have len: "0 < length (snapshots r)"
    by (simp add: youngProfessional_def)
  have e1: "fl (11 / 2) = 11 / 2"
    using fl_eq_down[of "11 / 2" 50 "6192449487634432"] by simp
  have e2: "fdiv (11 / 2) 100 = 7926335344172073 / 144115188075855872"
    using fl_eq_down[of "(11 / 2) / 100" 57 "7926335344172073"] by (simp add: fdiv_def)
  have e3: "fdiv (7926335344172073 / 144115188075855872) 12 = 2642111781390691 / 576460752303423488"
    using fl_eq_down[of "(7926335344172073 / 144115188075855872) / 12" 60 "5284223562781382"] by (simp add: fdiv_def)
  have e4: "fmul 18000 (2642111781390691 / 576460752303423488) = 165 / 2"
    using fl_eq_down[of "18000 * (2642111781390691 / 576460752303423488)" 46 "5805421394657280"] by (simp add: fmul_def)
  have e5: "fmul (165 / 2) 100 = 8250"
    using fl_eq_down[of "(165 / 2) * 100" 39 "4535485464576000"] by (simp add: fmul_def)
  have e6: "Math_round 8250 = 8250"
    by (rule Math_round_eqI) simp_all
  have e7: "fdiv 8250 100 = 165 / 2"
    using fl_eq_down[of "8250 / 100" 46 "5805421394657280"] by (simp add: fdiv_def)
  have e8: "r2 (165 / 2) = 165 / 2"
    by (simp add: r2_def e5 e6 e7)
  have e9: "fadd 18000 (165 / 2) = 36165 / 2"
    using fl_eq_down[of "18000 + (165 / 2)" 38 "4970479752314880"] by (simp add: fadd_def)
  have e10: "fl (3 / 10) = 5404319552844595 / 18014398509481984"
    using fl_eq_down[of "3 / 10" 54 "5404319552844595"] by simp
  have e11: "fmul 10550 (5404319552844595 / 18014398509481984) = 3165"
    using fl_eq_down[of "10550 * (5404319552844595 / 18014398509481984)" 41 "6959908603822080"] by (simp add: fmul_def)
  have e12: "fadd 200 3165 = 3365"
    using fl_eq_down[of "200 + 3165" 41 "7399713254932480"] by (simp add: fadd_def)
  have e13: "fmul 3365 100 = 336500"
    using fl_eq_down[of "3365 * 100" 34 "5781025980416000"] by (simp add: fmul_def)
  have e14: "Math_round 336500 = 336500"
    by (rule Math_round_eqI) simp_all
  have e15: "fdiv 336500 100 = 3365"
    using fl_eq_down[of "336500 / 100" 41 "7399713254932480"] by (simp add: fdiv_def)
  have e16: "r2 3365 = 3365"
    by (simp add: r2_def e13 e14 e15)
  have e17: "fsub (36165 / 2) 3365 = 29435 / 2"
    using fl_eq_down[of "(36165 / 2) - 3365" 39 "8091031190896640"] by (simp add: fsub_def)
  have e18: "fmul (29435 / 2) 100 = 1471750"
    using fl_eq_down[of "(29435 / 2) * 100" 32 "6321118117888000"] by (simp add: fmul_def)
  have e19: "Math_round 1471750 = 1471750"
    by (rule Math_round_eqI) simp_all
  have e20: "fdiv 1471750 100 = 29435 / 2"
    using fl_eq_down[of "1471750 / 100" 39 "8091031190896640"] by (simp add: fdiv_def)
  have e21: "r2 (29435 / 2) = 29435 / 2"
    by (simp add: r2_def e18 e19 e20)
  have e22: "fl (199 / 10) = 2800676018271027 / 140737488355328"
    using fl_eq_down[of "199 / 10" 48 "5601352036542054"] by simp
  have e23: "fdiv (2800676018271027 / 140737488355328) 100 = 7169730606773829 / 36028797018963968"
    using fl_eq_down[of "(2800676018271027 / 140737488355328) / 100" 55 "7169730606773829"] by (simp add: fdiv_def)
  have e24: "fdiv (7169730606773829 / 36028797018963968) 12 = 2389910202257943 / 144115188075855872"
    using fl_eq_down[of "(7169730606773829 / 36028797018963968) / 12" 58 "4779820404515886"] by (simp add: fdiv_def)
  have e25: "fmul 2500 (2389910202257943 / 144115188075855872) = 2917370852365653 / 70368744177664"
    using fl_eq_down[of "2500 * (2389910202257943 / 144115188075855872)" 47 "5834741704731306"] by (simp add: fmul_def)
  have e26: "fmul (2917370852365653 / 70368744177664) 100 = 4558391956821333 / 1099511627776"
    using fl_eq_down[of "(2917370852365653 / 70368744177664) * 100" 40 "4558391956821333"] by (simp add: fmul_def)
  have e27: "Math_round (4558391956821333 / 1099511627776) = 4146"
    by (rule Math_round_eqI) simp_all
  have e28: "fdiv 4146 100 = 5834976267211899 / 140737488355328"
    using fl_eq_down[of "4146 / 100" 47 "5834976267211899"] by (simp add: fdiv_def)
  have e29: "r2 (2917370852365653 / 70368744177664) = 5834976267211899 / 140737488355328"
    by (simp add: r2_def e26 e27 e28)
  have e30: "fadd 2500 (5834976267211899 / 140737488355328) = 2794364821527593 / 1099511627776"
    using fl_eq_down[of "2500 + (5834976267211899 / 140737488355328)" 41 "5588729643055186"] by (simp add: fadd_def)
  have e31: "fadd 75 3165 = 3240"
    using fl_eq_down[of "75 + 3165" 41 "7124835347988480"] by (simp add: fadd_def)
  have e32: "fmul (2794364821527593 / 1099511627776) 100 = 254146"
    using fl_eq_down[of "(2794364821527593 / 1099511627776) * 100" 35 "8732390067273728"] by (simp add: fmul_def)
  have e33: "Math_round 254146 = 254146"
    by (rule Math_round_eqI) simp_all
  have e34: "fdiv 254146 100 = 2794364821527593 / 1099511627776"
    using fl_eq_down[of "254146 / 100" 41 "5588729643055186"] by (simp add: fdiv_def)
  have e35: "r2 (2794364821527593 / 1099511627776) = 2794364821527593 / 1099511627776"
    by (simp add: r2_def e32 e33 e34)
  have e36: "fsub (2794364821527593 / 1099511627776) (2794364821527593 / 1099511627776) = 0" by (simp add: fsub_def fl_zero)
  have e37: "fmul 0 100 = 0" by (simp add: fmul_def fl_zero)
  have e38: "Math_round 0 = 0"
    by (rule Math_round_eqI) simp_all
  have e39: "fdiv 0 100 = 0" by (simp add: fdiv_def fl_zero)
  have e40: "r2 0 = 0"
    by (simp add: r2_def e37 e38 e39)
  have e41: "fadd 0 3365 = 3365"
    using fl_eq_down[of "0 + 3365" 41 "7399713254932480"] by (simp add: fadd_def)
  have e42: "fadd 3365 (2794364821527593 / 1099511627776) = 6494221448993833 / 1099511627776"
    using fl_eq_down[of "3365 + (2794364821527593 / 1099511627776)" 40 "6494221448993833"] by (simp add: fadd_def)
  have e43: "fmul (6494221448993833 / 1099511627776) 100 = 590646"
    using fl_eq_down[of "(6494221448993833 / 1099511627776) * 100" 33 "5073610507026432"] by (simp add: fmul_def)
  have e44: "Math_round 590646 = 590646"
    by (rule Math_round_eqI) simp_all
  have e45: "fdiv 590646 100 = 6494221448993833 / 1099511627776"
    using fl_eq_down[of "590646 / 100" 40 "6494221448993833"] by (simp add: fdiv_def)
  have e46: "r2 (6494221448993833 / 1099511627776) = 6494221448993833 / 1099511627776"
    by (simp add: r2_def e43 e44 e45)
  have e47: "cents 590646 = 6494221448993833 / 1099511627776"
    using fl_eq_down[of "590646 / 100" 40 "6494221448993833"] by (simp add: cents_def fdiv_def)
  define d1 where "d1 = \<lparr>balance = 18000, annualRate = 11 / 2, minPayment = 200,
                           strategy = Aggressive, paidOff = False\<rparr>"
  define d2 where "d2 = \<lparr>balance = 2500, annualRate = 2800676018271027 / 140737488355328, minPayment = 75,
                           strategy = Aggressive, paidOff = False\<rparr>"
  have ds: "st_debtStates (stateAfter powRef youngProfessional 0) = [d1, d2]"
    by (simp add: youngProfessional_def initState_def d1_def d2_def e1 e2 e3 e4 e5 e6 e7 e8 e9 e10 e11 e12 e13 e14 e15 e16 e17 e18 e19 e20 e21 e22 e23 e24 e25 e26 e27 e28 e29 e30 e31 e32 e33 e34 e35 e36 e37 e38 e39 e40 e41 e42 e43 e44 e45 e46 e47)
  have p1: "payment (stepDebt d1 10550) = 3365"
    by (simp add: stepDebt_def d1_def Let_def e1 e2 e3 e4 e5 e6 e7 e8 e9 e10 e11 e12 e13 e14 e15 e16 e17 e18 e19 e20 e21 e22 e23 e24 e25 e26 e27 e28 e29 e30 e31 e32 e33 e34 e35 e36 e37 e38 e39 e40 e41 e42 e43 e44 e45 e46 e47)
  have p2: "payment (stepDebt d2 10550) = 2794364821527593 / 1099511627776"
    by (simp add: stepDebt_def d2_def Let_def e1 e2 e3 e4 e5 e6 e7 e8 e9 e10 e11 e12 e13 e14 e15 e16 e17 e18 e19 e20 e21 e22 e23 e24 e25 e26 e27 e28 e29 e30 e31 e32 e33 e34 e35 e36 e37 e38 e39 e40 e41 e42 e43 e44 e45 e46 e47)
  from debt_service_shared_extraCash[OF r len]
  have "totalDebtPayment (snapshots r ! 0) =
          foldl (\<lambda>t d. r2 (fadd t (payment (stepDebt d (extraCashAt powRef youngProfessional 0)))))
            0 (st_debtStates (stateAfter powRef youngProfessional 0))"
    by blast
  then have "totalDebtPayment (snapshots r ! 0) = cents 590646"
    unfolding youngProfessional_extraCash ds
    by (simp add: p1 p2 e1 e2 e3 e4 e5 e6 e7 e8 e9 e10 e11 e12 e13 e14 e15 e16 e17 e18 e19 e20 e21 e22 e23 e24 e25 e26 e27 e28 e29 e30 e31 e32 e33 e34 e35 e36 e37 e38 e39 e40 e41 e42 e43 e44 e45 e46 e47)
  with r show ?thesis by blast
qed

text \<open>
  C2 as stated fails for an aggressive debt with a balance below zero: the loop skips it
  with a payment of 0, where the formula gives \<open>-100\<close>.
\<close>

theorem aggressive_credit_balance_counterexample:
  "st_debtStates (stateAfter powRef creditBalanceScenario 0) = [creditBalanceDebt]
   \<and> strategy creditBalanceDebt = Aggressive
   \<and> extraCashAt powRef creditBalanceScenario 0 = 0
   \<and> payment (stepDebt creditBalanceDebt (extraCashAt powRef creditBalanceScenario 0)) = 0
   \<and> aggressivePayment creditBalanceDebt (extraCashAt powRef creditBalanceScenario 0) = - 100"
proof -
  have x: "extraCashAt powRef creditBalanceScenario 0 = 0"
    by (simp add: extraCashAt_def preDebtCash_def netIncome_def grossIncome_def taxThisMonth_def
        expensesTotal_def oneTimeNet_def oneTimeEventsOf_def taxRateOf_def
        creditBalanceScenario_def initState_def int_arith)
  have "aggressivePayment creditBalanceDebt 0 = - 100"
    by (simp add: aggressivePayment_def creditBalanceDebt_def int_arith)
  moreover have "payment (stepDebt creditBalanceDebt 0) = 0"
    by (simp add: stepDebt_def creditBalanceDebt_def)
  moreover have "st_debtStates (stateAfter powRef creditBalanceScenario 0) = [creditBalanceDebt]"
    by (simp add: initState_def creditBalanceScenario_def creditBalanceDebt_def)
  ultimately show ?thesis using x by (simp add: creditBalanceDebt_def)
qed

subsection \<open>The heuristic advisor\<close>

lemma computeForecast_negativeMonthsInRange:
  assumes "computeForecast pw sc = Inr r"
  shows "negativeMonthsInRange r"
proof -
  have "set (negativeCashMonths (summary r)) \<subseteq> {0..<length (snapshots r)}"
    using computeForecast_Inr(1,5)[OF assms]
      negativeCashMonths_stateAfter[of pw sc "nat (months sc)"]
    by (auto simp: length_snapshots_stateAfter)
  moreover have "set (take 5 (negativeCashMonths (summary r)))
                 \<subseteq> set (negativeCashMonths (summary r))"
    by (rule set_take_subset)
  ultimately show ?thesis by (auto simp: negativeMonthsInRange_def)
qed

lemma negativeCashAlerts_ok:
  "\<forall>m\<in>set ms. m < length snaps \<Longrightarrow>
   \<exists>as. negativeCashAlerts P cur snaps ms = Inr as
        \<and> map alert_type as = replicate (length ms) AT_cash
        \<and> map monthIndex as = map int ms"
proof (induction ms)
  case Nil
  show ?case by simp
next
  case (Cons m ms)
  then obtain as where as: "negativeCashAlerts P cur snaps ms = Inr as"
    "map alert_type as = replicate (length ms) AT_cash" "map monthIndex as = map int ms"
    by auto
  from Cons.prems have "m < length snaps" by simp
  then obtain a where a: "negativeCashAlert P cur snaps m = Inr a"
    "alert_type a = AT_cash" "monthIndex a = int m"
    by (simp add: negativeCashAlert_def)
  with as show ?case by simp
qed

lemma advisorActions_ok: "\<exists>ac. advisorActions sc fc = Inr ac"
proof (cases "debts sc")
  case Nil
  then show ?thesis by (simp add: advisorActions_def Let_def r2_zero)
next
  case (Cons d ds)
  then show ?thesis by (simp add: advisorActions_def Let_def)
qed

lemma length_insightsBeforeFiller:
  "1 \<le> length (insightsBeforeFiller P sc fc) \<and> length (insightsBeforeFiller P sc fc) \<le> 4"
  by (simp add: insightsBeforeFiller_def Let_def split: option.splits)

lemma length_advisorInsights:
  "2 \<le> length (advisorInsights P sc fc) \<and> length (advisorInsights P sc fc) \<le> 4"
  using length_insightsBeforeFiller[of P sc fc]
  by (auto simp: advisorInsights_def Let_def)

lemma runHeuristicAdvisor_ok:
  assumes "negativeMonthsInRange fc"
  shows "\<exists>resp cashAlerts rest.
           runHeuristicAdvisor P sc fc e = Inr resp
         \<and> insights resp = take 6 (advisorInsights P sc fc)
         \<and> alerts resp = cashAlerts @ rest
         \<and> map alert_type cashAlerts =
             replicate (length (take 5 (negativeCashMonths (summary fc)))) AT_cash
         \<and> map monthIndex cashAlerts = map int (take 5 (negativeCashMonths (summary fc)))"
proof -
  from assms have "\<forall>m\<in>set (take 5 (negativeCashMonths (summary fc))). m < length (snapshots fc)"
    by (simp add: negativeMonthsInRange_def)
  from negativeCashAlerts_ok[OF this, of P "currency sc"] obtain as where
    as: "negativeCashAlerts P (currency sc) (snapshots fc)
           (take 5 (negativeCashMonths (summary fc))) = Inr as"
      "map alert_type as = replicate (length (take 5 (negativeCashMonths (summary fc)))) AT_cash"
      "map monthIndex as = map int (take 5 (negativeCashMonths (summary fc)))"
    by blast
  from as(1) obtain rest where al: "advisorAlerts P sc fc e = Inr (as @ rest)"
    by (simp add: advisorAlerts_def Let_def)
  from advisorActions_ok obtain ac where ac: "advisorActions sc fc = Inr ac" by blast
  from al ac have "runHeuristicAdvisor P sc fc e =
      Inr \<lparr>insights = take 6 (advisorInsights P sc fc), alerts = as @ rest, actions = ac\<rparr>"
    by (simp add: runHeuristicAdvisor_def)
  with as(2,3) show ?thesis by fastforce
qed

text \<open>
  C8 (as amended). On a forecast whose listed negative months are indices of its
  snapshots, \<^verbatim>\<open>runHeuristicAdvisor\<close> returns between 2 and 4 insights (so between 1
  and 6): the insights accumulated before the filler step, and, if these are fewer than
  3, one filler insight with \<^verbatim>\<open>minCash\<close> as impact and confidence med. The filler
  is appended once, so the minimum is 2 insights, not 3.
\<close>

theorem advisor_insight_count:
  assumes "negativeMonthsInRange fc"
  shows "\<exists>resp. runHeuristicAdvisor P sc fc e = Inr resp
         \<and> insights resp =
             (if length (insightsBeforeFiller P sc fc) < 3
              then insightsBeforeFiller P sc fc @ [fillerInsight fc]
              else insightsBeforeFiller P sc fc)
         \<and> impact_aed (fillerInsight fc) = minCash (summary fc)
         \<and> confidence (fillerInsight fc) = Med
         \<and> 2 \<le> length (insights resp) \<and> length (insights resp) \<le> 4"
proof -
  from runHeuristicAdvisor_ok[OF assms, of P sc e] obtain resp where
    resp: "runHeuristicAdvisor P sc fc e = Inr resp"
      "insights resp = take 6 (advisorInsights P sc fc)"
    by blast
  from length_advisorInsights[of P sc fc] resp(2)
  have ins: "insights resp = advisorInsights P sc fc" by simp
  then have "insights resp =
             (if length (insightsBeforeFiller P sc fc) < 3
              then insightsBeforeFiller P sc fc @ [fillerInsight fc]
              else insightsBeforeFiller P sc fc)"
    by (simp add: advisorInsights_def Let_def)
  moreover have "impact_aed (fillerInsight fc) = minCash (summary fc)"
    "confidence (fillerInsight fc) = Med"
    by (simp_all add: fillerInsight_def)
  ultimately show ?thesis
    using resp(1) ins length_advisorInsights[of P sc fc] by auto
qed

theorem advisor_insight_count_witness:
  "\<exists>resp. runHeuristicAdvisor plainPrinting shortfallScenario shortfallForecast 3 = Inr resp
        \<and> length (insights resp) = 3"
proof -
  have "negativeMonthsInRange shortfallForecast"
    by (simp add: negativeMonthsInRange_def shortfallForecast_def)
  from advisor_insight_count[OF this, of plainPrinting shortfallScenario 3] obtain resp where
    resp: "runHeuristicAdvisor plainPrinting shortfallScenario shortfallForecast 3 = Inr resp"
      "insights resp =
         (if length (insightsBeforeFiller plainPrinting shortfallScenario shortfallForecast) < 3
          then insightsBeforeFiller plainPrinting shortfallScenario shortfallForecast
               @ [fillerInsight shortfallForecast]
          else insightsBeforeFiller plainPrinting shortfallScenario shortfallForecast)"
    by blast
  have "length (insightsBeforeFiller plainPrinting shortfallScenario shortfallForecast) = 2"
    by (simp add: insightsBeforeFiller_def shortfallForecast_def shortfallScenario_def
        baseScenario_def)
  with resp show ?thesis by auto
qed

text \<open>
  C8 as stated fails: for one month of \<^verbatim>\<open>BASE\<close> (no debt, no investment, no month
  of negative cash) the advisor returns 2 insights.
\<close>

theorem advisor_two_insights_counterexample:
  "computeForecast powRef stableScenario = Inr stableForecast
   \<and> map_sum id (length \<circ> insights)
       (runHeuristicAdvisor plainPrinting stableScenario stableForecast 3) = Inr 2"
proof -
  have "negativeMonthsInRange stableForecast"
    by (simp add: negativeMonthsInRange_def stableForecast_def)
  from runHeuristicAdvisor_ok[OF this, of plainPrinting stableScenario 3] obtain resp where
    resp: "runHeuristicAdvisor plainPrinting stableScenario stableForecast 3 = Inr resp"
      "insights resp = take 6 (advisorInsights plainPrinting stableScenario stableForecast)"
    by blast
  have "length (insightsBeforeFiller plainPrinting stableScenario stableForecast) = 1"
    by (simp add: insightsBeforeFiller_def stableForecast_def stableScenario_def
        baseScenario_def)
  then have "length (advisorInsights plainPrinting stableScenario stableForecast) = 2"
    by (simp add: advisorInsights_def)
  with resp stableForecast_computed show ?thesis by simp
qed

text \<open>
  C9. On a forecast whose first five listed negative months are indices of its snapshots
  (every forecast of \<^verbatim>\<open>computeForecast\<close> is one, lemma
  \<open>computeForecast_negativeMonthsInRange\<close>), \<^verbatim>\<open>runHeuristicAdvisor\<close> returns alerts
  that start with one alert of type \<^verbatim>\<open>cash\<close> per entry of the first five of
  \<^verbatim>\<open>summary.negativeCashMonths\<close>, in order, each with that entry as its
  \<^verbatim>\<open>monthIndex\<close>; so a non-empty \<^verbatim>\<open>negativeCashMonths\<close> gives at least one
  alert of type \<^verbatim>\<open>cash\<close>.
\<close>

theorem advisor_cash_alerts:
  assumes "negativeMonthsInRange fc"
  shows "\<exists>resp. runHeuristicAdvisor P sc fc e = Inr resp
         \<and> map alert_type
               (take (min 5 (length (negativeCashMonths (summary fc)))) (alerts resp))
             = replicate (min 5 (length (negativeCashMonths (summary fc)))) AT_cash
         \<and> map monthIndex
               (take (min 5 (length (negativeCashMonths (summary fc)))) (alerts resp))
             = map int (take 5 (negativeCashMonths (summary fc)))
         \<and> (negativeCashMonths (summary fc) \<noteq> []
              \<longrightarrow> (\<exists>a\<in>set (alerts resp). alert_type a = AT_cash))"
proof -
  let ?negs = "negativeCashMonths (summary fc)"
  from runHeuristicAdvisor_ok[OF assms, of P sc e] obtain resp cashAlerts rest where
    resp: "runHeuristicAdvisor P sc fc e = Inr resp"
    and al: "alerts resp = cashAlerts @ rest"
    and ty: "map alert_type cashAlerts = replicate (length (take 5 ?negs)) AT_cash"
    and mi: "map monthIndex cashAlerts = map int (take 5 ?negs)"
    by blast
  from ty have len: "length cashAlerts = min 5 (length ?negs)"
    using length_map[of alert_type cashAlerts] by (simp add: min.commute)
  with al have tk: "take (min 5 (length ?negs)) (alerts resp) = cashAlerts" by simp
  have "\<exists>a\<in>set (alerts resp). alert_type a = AT_cash" if ne: "?negs \<noteq> []"
  proof -
    from ne len have "cashAlerts \<noteq> []" by (cases ?negs) auto
    then obtain a as where c: "cashAlerts = a # as" by (cases cashAlerts) auto
    with ty have "alert_type a = AT_cash" by (cases "length (take 5 ?negs)") auto
    with c al show ?thesis by auto
  qed
  with resp tk ty mi show ?thesis by (auto simp: min.commute)
qed

theorem advisor_cash_alerts_witness:
  "\<exists>resp. runHeuristicAdvisor plainPrinting shortfallScenario shortfallForecast 3 = Inr resp
        \<and> alert_type (hd (alerts resp)) = AT_cash \<and> monthIndex (hd (alerts resp)) = 0"
proof -
  have "negativeMonthsInRange shortfallForecast"
    by (simp add: negativeMonthsInRange_def shortfallForecast_def)
  from advisor_cash_alerts[OF this, of plainPrinting shortfallScenario 3] obtain resp where
    resp: "runHeuristicAdvisor plainPrinting shortfallScenario shortfallForecast 3 = Inr resp"
    and ty: "map alert_type (take (min 5 (length (negativeCashMonths (summary shortfallForecast))))
               (alerts resp))
             = replicate (min 5 (length (negativeCashMonths (summary shortfallForecast)))) AT_cash"
    and mi: "map monthIndex (take (min 5 (length (negativeCashMonths (summary shortfallForecast))))
               (alerts resp))
             = map int (take 5 (negativeCashMonths (summary shortfallForecast)))"
    by blast
  have n: "min 5 (length (negativeCashMonths (summary shortfallForecast))) = Suc 0"
    by (simp add: shortfallForecast_def)
  from ty have "alerts resp \<noteq> []" unfolding n by auto
  then obtain a as where a: "alerts resp = a # as" by (cases "alerts resp") auto
  from ty mi have "alert_type a = AT_cash" "monthIndex a = 0"
    unfolding n a by (simp_all add: shortfallForecast_def)
  with resp a show ?thesis by simp
qed

end
